theory Spec2Isabelle
  imports Complex_Main
begin

section \<open>The quote pricing model of app.py\<close>

text \<open>
  The development embeds \<^verbatim>\<open>calculate_quote\<close> of \<^verbatim>\<open>app.py\<close>, the table that
  \<^verbatim>\<open>generate_pdf_bytes\<close> builds from its result, and the loop of the Quote Builder
  page that collects the selections.

  Numbers. Python computes with unbounded integers and, after the true division
  \<^verbatim>\<open>discount_percent / 100\<close>, with binary floating point. The model computes with
  exact rationals: every identity below is an identity of exact arithmetic, which the
  Python floats follow up to rounding. The one exception Python's arithmetic can raise
  here, \<^verbatim>\<open>OverflowError\<close> on an int too large for a float, is modelled apart, by
  \<open>calculate_quote_py\<close>, which tells ints from floats and is shown to compute the
  quote of \<open>calculate_quote\<close> whenever it returns.
\<close>

type_synonym num = rat

subsection \<open>Data\<close>

text \<open>
  A Python dict with string keys keeps its insertion order: it is an association list
  (for a real dict the keys are distinct). \<^verbatim>\<open>d.get(k, default)\<close> never raises.
\<close>

type_synonym dict = "(string \<times> num) list"

definition dict_get :: "dict \<Rightarrow> string \<Rightarrow> num \<Rightarrow> num" where
  "dict_get d k dflt = (case map_of d k of None \<Rightarrow> dflt | Some v \<Rightarrow> v)"

definition dict_values :: "dict \<Rightarrow> num list" where
  "dict_values d = map snd d"

text \<open>The module constants (app.py, lines 25-36).\<close>

definition SAMPLE_RATES :: dict where
  "SAMPLE_RATES =
     [(''Cement (bag, 50kg)'', 420),
      (''Bricks (1000 nos)'', 7000),
      (''Sand (per cu.m)'', 1500),
      (''Steel (per ton)'', 65000),
      (''Plastering (labor per sq.ft)'', 25),
      (''Flooring (tiles per sq.ft incl material+labour)'', 250),
      (''Painting (per sq.ft)'', 18),
      (''Electrical (per point incl material+labour)'', 1200)]"

definition GST_PERCENT :: num where
  "GST_PERCENT = 18"

text \<open>
  A selection is the dict \<^verbatim>\<open>it\<close> of the loop: the keys \<^verbatim>\<open>'name'\<close> and \<^verbatim>\<open>'qty'\<close>
  are read with \<^verbatim>\<open>it[...]\<close>, which raises \<^verbatim>\<open>KeyError\<close> on a missing key, and
  \<^verbatim>\<open>'unit'\<close> with \<^verbatim>\<open>it.get\<close>. A missing key is the value \<open>None\<close> of the field.
\<close>

record selection =
  name :: "string option"
  qty :: "num option"
  unit :: "string option"

datatype error = KeyError string | TypeError | OverflowError | ZeroDivisionError

text \<open>A row is the dict appended to \<^verbatim>\<open>rows\<close> (lines 88-93).\<close>

record row =
  Item :: string
  Qty :: num
  Unit_Price :: num
  Total :: num

text \<open>
  The returned dict (lines 104-112). The fields \<^verbatim>\<open>'rows'\<close> and \<^verbatim>\<open>'extras'\<close> hold
  a list and a dict: values in the pure reading, references in the store reading.
\<close>

record ('r, 'e) quote =
  rows :: 'r
  extras :: 'e
  subtotal :: num
  discount_amt :: num
  taxable :: num
  gst_amt :: num
  grand_total :: num

type_synonym QuoteComputation = "(row list, dict) quote"

subsection \<open>calculate_quote\<close>

text \<open>The body of the loop up to the row it appends (lines 83-93).\<close>

definition price_row :: "dict \<Rightarrow> selection \<Rightarrow> error + row" where
  "price_row rates it =
     (case name it of
        None \<Rightarrow> Inl (KeyError ''name'')
      | Some nm \<Rightarrow>
          (case qty it of
             None \<Rightarrow> Inl (KeyError ''qty'')
           | Some q \<Rightarrow>
               (let u = (case unit it of None \<Rightarrow> ''unit'' | Some v \<Rightarrow> v);
                    rate = dict_get rates nm 0;
                    total = rate * q
                in Inr \<lparr>Item = nm, Qty = q, Unit_Price = rate, Total = total\<rparr>)))"

text \<open>
  The loop \<^verbatim>\<open>for it in selected_items\<close> (lines 82-94), with the two variables it
  updates, \<^verbatim>\<open>rows\<close> and \<^verbatim>\<open>subtotal\<close>. An exception leaves the loop at once.
\<close>

fun quote_loop :: "dict \<Rightarrow> selection list \<Rightarrow> row list \<Rightarrow> num \<Rightarrow> error + (row list \<times> num)" where
  "quote_loop rates [] rs sub = Inr (rs, sub)"
| "quote_loop rates (it # its) rs sub =
     (case price_row rates it of
        Inl err \<Rightarrow> Inl err
      | Inr r \<Rightarrow> quote_loop rates its (rs @ [r]) (sub + Total r))"

text \<open>
  The lines after the loop (lines 97-112). \<open>rws\<close> and \<open>ext\<close> are what the result
  stores under \<^verbatim>\<open>'rows'\<close> and \<^verbatim>\<open>'extras'\<close>, \<open>ex\<close> is the content of the extras dict,
  \<open>sub\<close> the subtotal the loop has reached.
\<close>

definition quote_totals :: "'r \<Rightarrow> 'e \<Rightarrow> dict \<Rightarrow> num \<Rightarrow> num \<Rightarrow> ('r, 'e) quote" where
  "quote_totals rws ext ex sub discount_percent =
     (let extras_total = (if ex \<noteq> [] then sum_list (dict_values ex) else 0);
          subtotal = sub + extras_total;
          discount_amt = subtotal * (discount_percent / 100);
          taxable = subtotal - discount_amt;
          gst_amt = taxable * GST_PERCENT / 100;
          grand_total = taxable + gst_amt
      in \<lparr>rows = rws, extras = ext, subtotal = subtotal, discount_amt = discount_amt,
          taxable = taxable, gst_amt = gst_amt, grand_total = grand_total\<rparr>)"

text \<open>
  \<^verbatim>\<open>calculate_quote(selected_items, extras, discount_percent)\<close>; the global
  \<^verbatim>\<open>SAMPLE_RATES\<close> it reads is the first argument.
\<close>

definition calculate_quote :: "dict \<Rightarrow> selection list \<Rightarrow> dict \<Rightarrow> num \<Rightarrow> error + QuoteComputation" where
  "calculate_quote rates selected_items ex discount_percent =
     (case quote_loop rates selected_items [] 0 of
        Inl err \<Rightarrow> Inl err
      | Inr (rs, sub) \<Rightarrow> Inr (quote_totals rs ex ex sub discount_percent))"

subsection \<open>The Quote Builder form\<close>

text \<open>
  The loop of the Quote Builder page that collects \<^verbatim>\<open>selected_items\<close> (app.py, lines
  261-269). The widgets are read once per catalog entry: \<open>include\<close> is the state of the
  checkbox and \<open>qty_of\<close> the value of the number input of an item. An entry is appended
  \<^verbatim>\<open>if include and qty > 0\<close>, as the dict \<^verbatim>\<open>{'name': name, 'qty': qty}\<close>.
\<close>

fun form_loop :: "(string \<Rightarrow> bool) \<Rightarrow> (string \<Rightarrow> num) \<Rightarrow> dict \<Rightarrow> selection list \<Rightarrow> selection list" where
  "form_loop include qty_of [] selected_items = selected_items"
| "form_loop include qty_of ((nm, rate) # rest) selected_items =
     form_loop include qty_of rest
       (if include nm \<and> qty_of nm > 0
        then selected_items @ [\<lparr>name = Some nm, qty = Some (qty_of nm), unit = None\<rparr>]
        else selected_items)"

definition form_selected_items :: "(string \<Rightarrow> bool) \<Rightarrow> (string \<Rightarrow> num) \<Rightarrow> dict \<Rightarrow> selection list" where
  "form_selected_items include qty_of rates = form_loop include qty_of rates []"

subsection \<open>The table of the PDF report\<close>

text \<open>
  \<^verbatim>\<open>generate_pdf_bytes\<close> builds the list \<^verbatim>\<open>data\<close> of table lines (app.py, lines
  145-152): the header, one line per row, then one line per extra charge, the last
  under \<^verbatim>\<open>if quote_calc['extras']\<close>. A cell is a string, a number passed as it is
  (the quantity), or a number rendered by the format \<^verbatim>\<open>{:,}\<close>. The rupee sign of the
  two header cells is written \<open>INR\<close>.
\<close>

datatype cell = Text string | Number num | Grouped num

definition table_header :: "cell list" where
  "table_header = [Text ''Item'', Text ''Qty'', Text ''Unit Price (INR)'', Text ''Total (INR)'']"

definition row_line :: "row \<Rightarrow> cell list" where
  "row_line r = [Text (Item r), Number (Qty r), Grouped (Unit_Price r), Grouped (Total r)]"

definition extra_line :: "string \<times> num \<Rightarrow> cell list" where
  "extra_line kv = (case kv of (k, v) \<Rightarrow> [Text k, Text ''-'', Text ''-'', Grouped v])"

definition pdf_table_data :: "QuoteComputation \<Rightarrow> cell list list" where
  "pdf_table_data quote_calc =
     (let data = [table_header];
          data = fold (\<lambda>r data. data @ [row_line r]) (rows quote_calc) data
      in if extras quote_calc \<noteq> []
         then fold (\<lambda>kv data. data @ [extra_line kv]) (extras quote_calc) data
         else data)"

subsection \<open>calculate_quote on a store of objects\<close>

text \<open>
  Python passes lists and dicts by reference. The store holds the objects, an address
  is an index into it, and a new object takes the next free index. \<^verbatim>\<open>calculate_quote\<close>
  creates one list, \<^verbatim>\<open>rows\<close>, and \<^verbatim>\<open>rows.append\<close> is its only write. The dicts
  inside a list (the selections, the rows) are kept by value: the function reads the
  first and only builds the second.
\<close>

type_synonym addr = nat

datatype obj = Selections "selection list" | Mapping dict | Rows "row list"

type_synonym store = "obj list"

definition deref :: "store \<Rightarrow> addr \<Rightarrow> obj option" where
  "deref h a = (if a < length h then Some (h ! a) else None)"

definition alloc :: "store \<Rightarrow> obj \<Rightarrow> store \<times> addr" where
  "alloc h v = (h @ [v], length h)"

text \<open>
  The loop on the store. \<open>g\<close>, \<open>s\<close> and \<open>r\<close> are the addresses of \<^verbatim>\<open>SAMPLE_RATES\<close>,
  \<^verbatim>\<open>selected_items\<close> and \<^verbatim>\<open>rows\<close>. A Python list iterator holds the list and an index
  \<open>i\<close>, and looks at the list as it is at each step; so the loop runs for ever when the
  body makes the list longer each time round, and its result is an \<open>option\<close>, \<open>None\<close>
  for a loop that does not end. An address that holds no object of the expected kind
  is outside the types of the function; the model answers \<open>TypeError\<close> there.
\<close>

partial_function (option) store_loop ::
  "store \<Rightarrow> addr \<Rightarrow> addr \<Rightarrow> addr \<Rightarrow> nat \<Rightarrow> num \<Rightarrow> (store \<times> (error + num)) option" where
  "store_loop h g s r i sub =
     (case deref h s of
        Some (Selections its) \<Rightarrow>
          if i < length its then
            (case deref h g of
               Some (Mapping rates) \<Rightarrow>
                 (case price_row rates (its ! i) of
                    Inl err \<Rightarrow> Some (h, Inl err)
                  | Inr rw \<Rightarrow>
                      (case deref h r of
                         Some (Rows rs) \<Rightarrow>
                           store_loop (h[r := Rows (rs @ [rw])]) g s r (i + 1) (sub + Total rw)
                       | _ \<Rightarrow> Some (h, Inl TypeError)))
             | _ \<Rightarrow> Some (h, Inl TypeError))
          else Some (h, Inr sub)
      | _ \<Rightarrow> Some (h, Inl TypeError))"

text \<open>
  The whole function on the store: \<^verbatim>\<open>rows = []\<close> allocates, the loop runs, the lines
  after it read the extras dict, and the result holds the two references \<^verbatim>\<open>rows\<close> and
  \<^verbatim>\<open>extras\<close>, the second being the very argument.
\<close>

definition calculate_quote_store ::
  "store \<Rightarrow> addr \<Rightarrow> addr \<Rightarrow> addr \<Rightarrow> num \<Rightarrow> (store \<times> (error + (addr, addr) quote)) option" where
  "calculate_quote_store h g selected_items ext discount_percent =
     (case alloc h (Rows []) of
        (h1, rws) \<Rightarrow>
          (case store_loop h1 g selected_items rws 0 0 of
             None \<Rightarrow> None
           | Some (h2, Inl err) \<Rightarrow> Some (h2, Inl err)
           | Some (h2, Inr sub) \<Rightarrow>
               (case deref h2 ext of
                  Some (Mapping ex) \<Rightarrow>
                    Some (h2, Inr (quote_totals rws ext ex sub discount_percent))
                | _ \<Rightarrow> Some (h2, Inl TypeError))))"

text \<open>What a returned quote holds, its two references followed into the store.\<close>

definition quote_value :: "store \<Rightarrow> (addr, addr) quote \<Rightarrow> QuoteComputation option" where
  "quote_value h q =
     (case deref h (rows q) of
        Some (Rows rs) \<Rightarrow>
          (case deref h (extras q) of
             Some (Mapping ex) \<Rightarrow>
               Some \<lparr>rows = rs, extras = ex, subtotal = subtotal q,
                     discount_amt = discount_amt q, taxable = taxable q,
                     gst_amt = gst_amt q, grand_total = grand_total q\<rparr>
           | _ \<Rightarrow> None)
      | _ \<Rightarrow> None)"

subsection \<open>calculate_quote on Python's numbers\<close>

text \<open>
  A Python number is an int, of any size, or a float. An operation on two ints is exact.
  Any other operation first converts its int operand to a float, and the conversion
  raises \<^verbatim>\<open>OverflowError\<close> when the int, rounded to a double, passes the largest double:
  that is from \<open>2 ^ 1024 - 2 ^ 970\<close> on. A float is written as the rational it stands
  for, so the floats of the model are the finite ones (\<^verbatim>\<open>inf\<close> and \<^verbatim>\<open>nan\<close> are no
  inputs); rounding is left out, and a float result beyond the double range, \<^verbatim>\<open>inf\<close>
  in Python and raising nothing, is the exact value here.
\<close>

datatype pynum = PyInt int | PyFloat rat

fun val :: "pynum \<Rightarrow> num" where
  "val (PyInt n) = of_int n"
| "val (PyFloat x) = x"

definition float_limit :: int where
  "float_limit = 2 ^ 1024 - 2 ^ 970"

definition as_float :: "pynum \<Rightarrow> error + rat" where
  "as_float a =
     (case a of
        PyFloat x \<Rightarrow> Inr x
      | PyInt n \<Rightarrow> if \<bar>n\<bar> < float_limit then Inr (of_int n) else Inl OverflowError)"

text \<open>
  \<^verbatim>\<open>+\<close>, \<^verbatim>\<open>-\<close> and \<^verbatim>\<open>*\<close>: on two ints the int operation, otherwise the float
  operation on the two operands converted, the left one first.
\<close>

definition py_binop ::
  "(int \<Rightarrow> int \<Rightarrow> int) \<Rightarrow> (rat \<Rightarrow> rat \<Rightarrow> rat) \<Rightarrow> pynum \<Rightarrow> pynum \<Rightarrow> error + pynum" where
  "py_binop on_ints on_floats a b =
     (case (a, b) of
        (PyInt m, PyInt n) \<Rightarrow> Inr (PyInt (on_ints m n))
      | _ \<Rightarrow>
          (case as_float a of
             Inl err \<Rightarrow> Inl err
           | Inr x \<Rightarrow>
               (case as_float b of
                  Inl err \<Rightarrow> Inl err
                | Inr y \<Rightarrow> Inr (PyFloat (on_floats x y)))))"

definition py_add :: "pynum \<Rightarrow> pynum \<Rightarrow> error + pynum" where
  "py_add = py_binop (+) (+)"

definition py_sub :: "pynum \<Rightarrow> pynum \<Rightarrow> error + pynum" where
  "py_sub = py_binop (-) (-)"

definition py_mul :: "pynum \<Rightarrow> pynum \<Rightarrow> error + pynum" where
  "py_mul = py_binop (*) (*)"

text \<open>
  True division \<^verbatim>\<open>/\<close> always gives a float. Of two ints it is the quotient rounded
  once, and raises \<^verbatim>\<open>OverflowError\<close> when the quotient is beyond the double range.
\<close>

definition py_truediv :: "pynum \<Rightarrow> pynum \<Rightarrow> error + pynum" where
  "py_truediv a b =
     (case (a, b) of
        (PyInt m, PyInt n) \<Rightarrow>
          if n = 0 then Inl ZeroDivisionError
          else if \<bar>of_int m / of_int n :: rat\<bar> < of_int float_limit
          then Inr (PyFloat (of_int m / of_int n))
          else Inl OverflowError
      | _ \<Rightarrow>
          (case as_float a of
             Inl err \<Rightarrow> Inl err
           | Inr x \<Rightarrow>
               (case as_float b of
                  Inl err \<Rightarrow> Inl err
                | Inr y \<Rightarrow> if y = 0 then Inl ZeroDivisionError else Inr (PyFloat (x / y)))))"

text \<open>An exception ends the computation: the steps of a function are chained by\<close>

definition and_then :: "error + 'a \<Rightarrow> ('a \<Rightarrow> error + 'b) \<Rightarrow> error + 'b" where
  "and_then m f = (case m of Inl err \<Rightarrow> Inl err | Inr x \<Rightarrow> f x)"

text \<open>\<^verbatim>\<open>sum(values)\<close> adds the values to the int 0, one after the other.\<close>

fun py_sum :: "pynum list \<Rightarrow> pynum \<Rightarrow> error + pynum" where
  "py_sum [] result = Inr result"
| "py_sum (v # vs) result = and_then (py_add result v) (py_sum vs)"

text \<open>
  The inputs with Python numbers in them, and the values they stand for. The quote that
  is returned is given by the values of its numbers.
\<close>

record py_selection =
  py_name :: "string option"
  py_qty :: "pynum option"
  py_unit :: "string option"

type_synonym py_dict = "(string \<times> pynum) list"

definition vals :: "py_dict \<Rightarrow> dict" where
  "vals d = map (\<lambda>kv. (fst kv, val (snd kv))) d"

definition selection_val :: "py_selection \<Rightarrow> selection" where
  "selection_val it = \<lparr>name = py_name it, qty = map_option val (py_qty it), unit = py_unit it\<rparr>"

text \<open>
  The function again (lines 79-112), statement by statement, now with the operations of
  Python: \<^verbatim>\<open>.get(name, 0)\<close> gives the int 0, \<^verbatim>\<open>subtotal\<close> starts as the int 0, and 100
  and \<^verbatim>\<open>GST_PERCENT\<close> = 18 are ints.
\<close>

definition price_row_py :: "py_dict \<Rightarrow> py_selection \<Rightarrow> error + (row \<times> pynum)" where
  "price_row_py rates it =
     (case py_name it of
        None \<Rightarrow> Inl (KeyError ''name'')
      | Some nm \<Rightarrow>
          (case py_qty it of
             None \<Rightarrow> Inl (KeyError ''qty'')
           | Some q \<Rightarrow>
               (let u = (case py_unit it of None \<Rightarrow> ''unit'' | Some v \<Rightarrow> v);
                    rate = (case map_of rates nm of None \<Rightarrow> PyInt 0 | Some v \<Rightarrow> v)
                in and_then (py_mul rate q) (\<lambda>amount.
                     Inr (\<lparr>Item = nm, Qty = val q, Unit_Price = val rate, Total = val amount\<rparr>,
                          amount)))))"

fun quote_loop_py ::
  "py_dict \<Rightarrow> py_selection list \<Rightarrow> row list \<Rightarrow> pynum \<Rightarrow> error + (row list \<times> pynum)" where
  "quote_loop_py rates [] rs sub = Inr (rs, sub)"
| "quote_loop_py rates (it # its) rs sub =
     and_then (price_row_py rates it) (\<lambda>(r, amount).
     and_then (py_add sub amount) (\<lambda>sub'.
       quote_loop_py rates its (rs @ [r]) sub'))"

definition quote_totals_py :: "row list \<Rightarrow> py_dict \<Rightarrow> pynum \<Rightarrow> pynum \<Rightarrow> error + QuoteComputation" where
  "quote_totals_py rs ex sub discount_percent =
     and_then (if ex \<noteq> [] then py_sum (map snd ex) (PyInt 0) else Inr (PyInt 0)) (\<lambda>extras_total.
     and_then (py_add sub extras_total) (\<lambda>subtotal.
     and_then (py_truediv discount_percent (PyInt 100)) (\<lambda>fraction.
     and_then (py_mul subtotal fraction) (\<lambda>discount_amt.
     and_then (py_sub subtotal discount_amt) (\<lambda>taxable.
     and_then (py_mul taxable (PyInt 18)) (\<lambda>product.
     and_then (py_truediv product (PyInt 100)) (\<lambda>gst_amt.
     and_then (py_add taxable gst_amt) (\<lambda>grand_total.
       Inr \<lparr>rows = rs, extras = vals ex, subtotal = val subtotal,
            discount_amt = val discount_amt, taxable = val taxable,
            gst_amt = val gst_amt, grand_total = val grand_total\<rparr>))))))))"

definition calculate_quote_py ::
  "py_dict \<Rightarrow> py_selection list \<Rightarrow> py_dict \<Rightarrow> pynum \<Rightarrow> error + QuoteComputation" where
  "calculate_quote_py rates selected_items ex discount_percent =
     and_then (quote_loop_py rates selected_items [] (PyInt 0)) (\<lambda>(rs, sub).
       quote_totals_py rs ex sub discount_percent)"

text \<open>A number is within \<open>M\<close> when it is a float, or an int of absolute value at most \<open>M\<close>.\<close>

definition int_within :: "int \<Rightarrow> pynum \<Rightarrow> bool" where
  "int_within M a = (case a of PyInt n \<Rightarrow> \<bar>n\<bar> \<le> M | PyFloat x \<Rightarrow> True)"

text \<open>The definitions a concrete call is evaluated with.\<close>

lemmas quote_eval =
  calculate_quote_def price_row_def quote_totals_def dict_get_def dict_values_def
  GST_PERCENT_def Let_def

lemmas py_eval =
  calculate_quote_py_def quote_totals_py_def price_row_py_def and_then_def
  py_add_def py_sub_def py_mul_def py_truediv_def py_binop_def as_float_def
  float_limit_def vals_def Let_def

section \<open>Properties of the loop\<close>

lemma price_row_Inr:
  "price_row rates it = Inr r \<longleftrightarrow>
     (\<exists>nm q. name it = Some nm \<and> qty it = Some q \<and>
        r = \<lparr>Item = nm, Qty = q, Unit_Price = dict_get rates nm 0,
             Total = dict_get rates nm 0 * q\<rparr>)"
  by (auto simp: price_row_def Let_def split: option.splits)

lemma quote_loop_Inr:
  "quote_loop rates its rs sub = Inr (rs', sub') \<Longrightarrow>
     (\<exists>new. rs' = rs @ new \<and> map (price_row rates) its = map Inr new \<and>
        sub' = sub + sum_list (map Total new))"
proof (induction its arbitrary: rs sub)
  case Nil
  then show ?case by simp
next
  case (Cons it its)
  from Cons.prems obtain r where r: "price_row rates it = Inr r"
    and rest: "quote_loop rates its (rs @ [r]) (sub + Total r) = Inr (rs', sub')"
    by (auto split: sum.splits)
  from Cons.IH [OF rest] obtain new where
    "rs' = (rs @ [r]) @ new" "map (price_row rates) its = map Inr new"
    "sub' = sub + Total r + sum_list (map Total new)"
    by blast
  with r have "rs' = rs @ (r # new) \<and> map (price_row rates) (it # its) = map Inr (r # new) \<and>
      sub' = sub + sum_list (map Total (r # new))"
    by simp
  then show ?case by blast
qed

lemma calculate_quote_Inr:
  assumes "calculate_quote rates its ex d = Inr q"
  shows "map (price_row rates) its = map Inr (rows q)"
    and "q = quote_totals (rows q) ex ex (sum_list (map Total (rows q))) d"
proof -
  from assms obtain rs sub where loop: "quote_loop rates its [] 0 = Inr (rs, sub)"
    and q: "q = quote_totals rs ex ex sub d"
    by (auto simp: calculate_quote_def split: sum.splits)
  from quote_loop_Inr [OF loop] have new: "map (price_row rates) its = map Inr rs"
    and sub: "sub = sum_list (map Total rs)"
    by auto
  have rs: "rows q = rs" by (simp add: q quote_totals_def Let_def)
  show "map (price_row rates) its = map Inr (rows q)" using new rs by simp
  show "q = quote_totals (rows q) ex ex (sum_list (map Total (rows q))) d"
    using q sub rs by simp
qed

lemma quote_loop_total:
  "\<forall>it \<in> set its. name it \<noteq> None \<and> qty it \<noteq> None \<Longrightarrow>
     \<exists>rs' sub'. quote_loop rates its rs sub = Inr (rs', sub')"
proof (induction its arbitrary: rs sub)
  case Nil
  then show ?case by simp
next
  case (Cons it its)
  then obtain nm q where "name it = Some nm" "qty it = Some q" by auto
  then obtain r where "price_row rates it = Inr r"
    by (simp add: price_row_Inr)
  with Cons show ?case by simp
qed

lemma calculate_quote_total:
  assumes "\<forall>it \<in> set its. name it \<noteq> None \<and> qty it \<noteq> None"
  shows "\<exists>q. calculate_quote rates its ex d = Inr q"
  using quote_loop_total [OF assms, of rates "[]" 0]
  by (auto simp: calculate_quote_def)

lemma rows_nth:
  assumes "calculate_quote rates its ex d = Inr q" and "i < length its"
  shows "i < length (rows q)" and "price_row rates (its ! i) = Inr (rows q ! i)"
proof -
  have m: "map (price_row rates) its = map Inr (rows q)"
    by (rule calculate_quote_Inr(1) [OF assms(1)])
  then have "length its = length (rows q)"
    by (metis length_map)
  with assms(2) show len: "i < length (rows q)" by simp
  from m have "map (price_row rates) its ! i = map Inr (rows q) ! i" by simp
  with assms(2) len show "price_row rates (its ! i) = Inr (rows q ! i)" by simp
qed


lemma row_of_selection:
  assumes "calculate_quote rates its ex d = Inr q" and "r \<in> set (rows q)"
  shows "\<exists>it \<in> set its. price_row rates it = Inr r"
proof -
  from assms(2) have "Inr r \<in> set (map (price_row rates) its)"
    using calculate_quote_Inr(1) [OF assms(1)] by simp
  then show ?thesis by auto
qed

lemma calculate_quote_extras:
  "calculate_quote rates its ex d = Inr q \<Longrightarrow> extras q = ex"
  by (auto simp: calculate_quote_def quote_totals_def Let_def split: sum.splits)

lemma quote_totals_fields:
  assumes "q = quote_totals rw ext ex sub d"
  shows "subtotal q = sub + sum_list (dict_values ex)"
    and "discount_amt q = subtotal q * (d / 100)"
    and "taxable q = subtotal q - discount_amt q"
    and "gst_amt q = taxable q * GST_PERCENT / 100"
    and "grand_total q = taxable q + gst_amt q"
  unfolding assms by (simp_all add: quote_totals_def Let_def dict_values_def)

lemma sum_list_zero: "\<forall>x \<in> set xs. x = (0::num) \<Longrightarrow> sum_list xs = 0"
  by (induction xs) auto

lemma sum_list_nonneg_num: "\<forall>x \<in> set xs. (0::num) \<le> x \<Longrightarrow> 0 \<le> sum_list xs"
  by (induction xs) auto

lemma dict_get_zero:
  "\<forall>v \<in> set (dict_values rates). v = 0 \<Longrightarrow> dict_get rates nm 0 = 0"
  by (auto simp: dict_get_def dict_values_def split: option.splits dest!: map_of_SomeD)

lemma dict_get_nonneg:
  "\<forall>v \<in> set (dict_values rates). 0 \<le> v \<Longrightarrow> 0 \<le> dict_get rates nm 0"
  by (auto simp: dict_get_def dict_values_def split: option.splits dest!: map_of_SomeD)

lemma degenerate_quote_zero:
  assumes q: "calculate_quote rates its ex d = Inr q"
    and ex: "ex = []"
    and deg: "its = [] \<or> rates = [] \<or> (\<forall>v \<in> set (dict_values rates). v = 0)"
  shows "(\<forall>r \<in> set (rows q). Unit_Price r = 0 \<and> Total r = 0) \<and>
         subtotal q = 0 \<and> discount_amt q = 0 \<and> taxable q = 0 \<and>
         gst_amt q = 0 \<and> grand_total q = 0"
proof -
  note facts = calculate_quote_Inr [OF q]
  have rows0: "\<forall>r \<in> set (rows q). Unit_Price r = 0 \<and> Total r = 0"
  proof
    fix r assume r: "r \<in> set (rows q)"
    from row_of_selection [OF q r] obtain it
      where it: "it \<in> set its" "price_row rates it = Inr r" by blast
    from it(1) deg have "\<forall>v \<in> set (dict_values rates). v = 0"
      by (auto simp: dict_values_def)
    then have "dict_get rates (Item r) 0 = 0" by (rule dict_get_zero)
    with it(2) show "Unit_Price r = 0 \<and> Total r = 0"
      by (auto simp: price_row_Inr)
  qed
  then have s0: "sum_list (map Total (rows q)) = 0"
    by (intro sum_list_zero) simp
  have "q = quote_totals (rows q) [] [] 0 d"
    using facts(2) ex s0 by simp
  from quote_totals_fields [OF this]
  have "subtotal q = 0 \<and> discount_amt q = 0 \<and> taxable q = 0 \<and>
        gst_amt q = 0 \<and> grand_total q = 0"
    by (simp add: dict_values_def)
  with rows0 show ?thesis by blast
qed

subsection \<open>The form and the table\<close>

lemma form_loop_eq:
  "form_loop include qty_of cat acc =
     acc @ map (\<lambda>kv. \<lparr>name = Some (fst kv), qty = Some (qty_of (fst kv)), unit = None\<rparr>)
             (filter (\<lambda>kv. include (fst kv) \<and> 0 < qty_of (fst kv)) cat)"
proof (induction cat arbitrary: acc)
  case Nil
  then show ?case by simp
next
  case (Cons kv cat)
  obtain nm rate where kv: "kv = (nm, rate)" by (cases kv)
  show ?case
    unfolding kv form_loop.simps Cons.IH by simp
qed

lemma form_selected_items_eq:
  "form_selected_items include qty_of cat =
     map (\<lambda>kv. \<lparr>name = Some (fst kv), qty = Some (qty_of (fst kv)), unit = None\<rparr>)
         (filter (\<lambda>kv. include (fst kv) \<and> 0 < qty_of (fst kv)) cat)"
  by (simp add: form_selected_items_def form_loop_eq)

lemma fold_append_map: "fold (\<lambda>x acc. acc @ [f x]) xs acc = acc @ map f xs"
  by (induction xs arbitrary: acc) simp_all

lemma pdf_table_data_eq:
  "pdf_table_data q = table_header # map row_line (rows q) @ map extra_line (extras q)"
  by (simp add: pdf_table_data_def Let_def fold_append_map)

subsection \<open>The loop on the store\<close>

lemma store_loop_refines:
  assumes "deref h g = Some (Mapping rates)" and "deref h s = Some (Selections its)"
    and "deref h r = Some (Rows rs)" and "r \<noteq> s" and "r \<noteq> g" and "i \<le> length its"
  shows "\<exists>h' res. store_loop h g s r i sub = Some (h', res) \<and> length h' = length h \<and>
           (\<forall>a. a \<noteq> r \<longrightarrow> h' ! a = h ! a) \<and>
           (case quote_loop rates (drop i its) rs sub of
              Inl err \<Rightarrow> res = Inl err
            | Inr (rs', sub') \<Rightarrow> res = Inr sub' \<and> deref h' r = Some (Rows rs'))"
  using assms
proof (induction "length its - i" arbitrary: h i rs sub)
  case 0
  then have "drop i its = []" and "\<not> i < length its" by simp_all
  with "0.prems" show ?case
    by (subst store_loop.simps) simp
next
  case (Suc n)
  then have i: "i < length its" by simp
  then have drop: "drop i its = its ! i # drop (Suc i) its"
    by (simp add: Cons_nth_drop_Suc)
  show ?case
  proof (cases "price_row rates (its ! i)")
    case (Inl err)
    with Suc.prems i drop show ?thesis
      by (subst store_loop.simps) simp
  next
    case (Inr rw)
    let ?h = "h[r := Rows (rs @ [rw])]"
    from Suc.prems have r: "r < length h"
      by (simp add: deref_def split: if_splits)
    have g: "deref ?h g = Some (Mapping rates)"
      using Suc.prems by (simp add: deref_def split: if_splits)
    have s: "deref ?h s = Some (Selections its)"
      using Suc.prems by (simp add: deref_def split: if_splits)
    have rr: "deref ?h r = Some (Rows (rs @ [rw]))"
      using r by (simp add: deref_def)
    have n: "n = length its - Suc i" using Suc.hyps(2) by simp
    from Suc.hyps(1) [OF n g s rr \<open>r \<noteq> s\<close> \<open>r \<noteq> g\<close>, of "sub + Total rw"] i
    obtain h' res where step: "store_loop ?h g s r (Suc i) (sub + Total rw) = Some (h', res)"
      and len: "length h' = length ?h"
      and frame: "\<forall>a. a \<noteq> r \<longrightarrow> h' ! a = ?h ! a"
      and res: "(case quote_loop rates (drop (Suc i) its) (rs @ [rw]) (sub + Total rw) of
              Inl err \<Rightarrow> res = Inl err
            | Inr (rs', sub') \<Rightarrow> res = Inr sub' \<and> deref h' r = Some (Rows rs'))"
      by auto
    have "store_loop h g s r i sub = Some (h', res)"
      using Suc.prems i Inr step by (subst store_loop.simps) simp
    moreover have "length h' = length h" using len by simp
    moreover have "\<forall>a. a \<noteq> r \<longrightarrow> h' ! a = h ! a" using frame by simp
    moreover have "(case quote_loop rates (drop i its) rs sub of
              Inl err \<Rightarrow> res = Inl err
            | Inr (rs', sub') \<Rightarrow> res = Inr sub' \<and> deref h' r = Some (Rows rs'))"
      using res Inr by (simp add: drop)
    ultimately show ?thesis by blast
  qed
qed

lemma deref_append:
  "deref (h @ [v]) a = (if a < length h then deref h a else if a = length h then Some v else None)"
  by (auto simp: deref_def nth_append)

lemma deref_frame:
  assumes "deref h a = Some v" and "length h \<le> length h'" and "\<forall>a < length h. h' ! a = h ! a"
  shows "deref h' a = Some v"
  using assms by (auto simp: deref_def split: if_splits)

text \<open>
  The function on the store refines the function on values: it returns, it adds one
  object to the store and changes no other, and what it returns, read through the
  store, is the quote of \<open>calculate_quote\<close> on the contents of its arguments.
\<close>

lemma calculate_quote_store_refines:
  assumes g: "deref h g = Some (Mapping rates)"
    and s: "deref h s = Some (Selections its)"
    and e: "deref h e = Some (Mapping ex)"
  shows "\<exists>h' res. calculate_quote_store h g s e d = Some (h', res) \<and>
           length h' = Suc (length h) \<and>
           (\<forall>a < length h. h' ! a = h ! a) \<and>
           (case calculate_quote rates its ex d of
              Inl err \<Rightarrow> res = Inl err
            | Inr q \<Rightarrow>
                (\<exists>qr. res = Inr qr \<and> rows qr = length h \<and> extras qr = e \<and>
                   quote_value h' qr = Some q))"
proof -
  let ?r = "length h"
  let ?h1 = "h @ [Rows []]"
  from g s e have lt: "g < ?r" "s < ?r" "e < ?r"
    by (simp_all add: deref_def split: if_splits)
  have g1: "deref ?h1 g = Some (Mapping rates)" using g lt by (simp add: deref_append)
  have s1: "deref ?h1 s = Some (Selections its)" using s lt by (simp add: deref_append)
  have r1: "deref ?h1 ?r = Some (Rows [])" by (simp add: deref_append)
  from lt have ne: "?r \<noteq> s" "?r \<noteq> g" by simp_all
  from store_loop_refines [OF g1 s1 r1 ne, of 0 0]
  obtain h' res where loop: "store_loop ?h1 g s ?r 0 0 = Some (h', res)"
    and len: "length h' = length ?h1"
    and frame: "\<forall>a. a \<noteq> ?r \<longrightarrow> h' ! a = ?h1 ! a"
    and res: "(case quote_loop rates its [] 0 of
              Inl err \<Rightarrow> res = Inl err
            | Inr (rs', sub') \<Rightarrow> res = Inr sub' \<and> deref h' ?r = Some (Rows rs'))"
    by auto
  have len': "length h' = Suc ?r" using len by simp
  have frame': "\<forall>a < ?r. h' ! a = h ! a"
    using frame by (simp add: nth_append)
  have e': "deref h' e = Some (Mapping ex)"
    using e lt frame' len' by (simp add: deref_def split: if_splits)
  show ?thesis
  proof (cases "quote_loop rates its [] 0")
    case (Inl err)
    with res have "res = Inl err" by simp
    with loop have "calculate_quote_store h g s e d = Some (h', Inl err)"
      by (simp add: calculate_quote_store_def alloc_def)
    moreover have "calculate_quote rates its ex d = Inl err"
      using Inl by (simp add: calculate_quote_def)
    ultimately show ?thesis using len' frame' by simp
  next
    case (Inr p)
    obtain rs sub where p: "p = (rs, sub)" by (cases p)
    with res Inr have res': "res = Inr sub" and rows': "deref h' ?r = Some (Rows rs)"
      by simp_all
    let ?qr = "quote_totals ?r e ex sub d"
    have call: "calculate_quote_store h g s e d = Some (h', Inr ?qr)"
      using loop res' e' by (simp add: calculate_quote_store_def alloc_def)
    have pure: "calculate_quote rates its ex d = Inr (quote_totals rs ex ex sub d)"
      using Inr p by (simp add: calculate_quote_def)
    have val: "quote_value h' ?qr = Some (quote_totals rs ex ex sub d)"
      using rows' e' by (simp add: quote_value_def quote_totals_def Let_def)
    have "rows ?qr = ?r" "extras ?qr = e"
      by (simp_all add: quote_totals_def Let_def)
    with call pure val len' frame' show ?thesis by simp
  qed
qed

subsection \<open>Python's numbers\<close>

text \<open>
  Where the function on Python's numbers returns, it returns the quote of
  \<open>calculate_quote\<close> on the values of its arguments.
\<close>

lemma as_float_val: "as_float a = Inr x \<Longrightarrow> x = val a"
  by (cases a) (auto simp: as_float_def split: if_splits)

lemma py_binop_val:
  assumes "py_binop on_ints on_floats a b = Inr c"
    and "\<And>m n. of_int (on_ints m n) = on_floats (of_int m) (of_int n)"
  shows "val c = on_floats (val a) (val b)"
proof (cases "\<exists>m n. a = PyInt m \<and> b = PyInt n")
  case True
  with assms show ?thesis by (auto simp: py_binop_def)
next
  case False
  with assms(1) obtain x y where "as_float a = Inr x" "as_float b = Inr y"
    and c: "c = PyFloat (on_floats x y)"
    by (cases a; cases b) (auto simp: py_binop_def split: sum.splits)
  then show ?thesis by (simp add: as_float_val [symmetric])
qed

lemma py_add_val: "py_add a b = Inr c \<Longrightarrow> val c = val a + val b"
  unfolding py_add_def by (erule py_binop_val) simp

lemma py_sub_val: "py_sub a b = Inr c \<Longrightarrow> val c = val a - val b"
  unfolding py_sub_def by (erule py_binop_val) simp

lemma py_mul_val: "py_mul a b = Inr c \<Longrightarrow> val c = val a * val b"
  unfolding py_mul_def by (erule py_binop_val) simp

lemma py_truediv_val:
  assumes "py_truediv a b = Inr c"
  shows "val c = val a / val b"
proof (cases "\<exists>m n. a = PyInt m \<and> b = PyInt n")
  case True
  with assms show ?thesis by (auto simp: py_truediv_def split: if_splits)
next
  case False
  with assms obtain x y where "as_float a = Inr x" "as_float b = Inr y"
    and c: "c = PyFloat (x / y)"
    by (cases a; cases b) (auto simp: py_truediv_def split: sum.splits if_splits)
  then show ?thesis by (simp add: as_float_val [symmetric])
qed

lemma and_then_Inr:
  "and_then m f = Inr y \<longleftrightarrow> (\<exists>x. m = Inr x \<and> f x = Inr y)"
  by (cases m) (simp_all add: and_then_def)

lemma py_sum_val: "py_sum vs result = Inr r \<Longrightarrow> val r = val result + sum_list (map val vs)"
proof (induction vs arbitrary: result)
  case Nil
  then show ?case by simp
next
  case (Cons v vs)
  from Cons.prems obtain s where s: "py_add result v = Inr s" and rest: "py_sum vs s = Inr r"
    by (auto simp: and_then_Inr)
  from Cons.IH [OF rest] py_add_val [OF s] show ?case by simp
qed

lemma map_of_vals: "map_of (vals d) k = map_option val (map_of d k)"
  by (induction d) (auto simp: vals_def)

lemma price_row_py_val:
  assumes "price_row_py rates it = Inr (r, amount)"
  shows "price_row (vals rates) (selection_val it) = Inr r" and "val amount = Total r"
proof -
  from assms obtain nm q where nm: "py_name it = Some nm" and q: "py_qty it = Some q"
    by (auto simp: price_row_py_def split: option.splits)
  let ?rate = "case map_of rates nm of None \<Rightarrow> PyInt 0 | Some v \<Rightarrow> v"
  from assms nm q have mul: "py_mul ?rate q = Inr amount"
    and r: "r = \<lparr>Item = nm, Qty = val q, Unit_Price = val ?rate, Total = val amount\<rparr>"
    by (auto simp: price_row_py_def Let_def and_then_Inr)
  have rate: "dict_get (vals rates) nm 0 = val ?rate"
    by (simp add: dict_get_def map_of_vals split: option.splits)
  show "val amount = Total r" by (simp add: r)
  show "price_row (vals rates) (selection_val it) = Inr r"
    by (simp add: price_row_def selection_val_def nm q rate r py_mul_val [OF mul] Let_def)
qed

lemma quote_loop_py_val:
  "quote_loop_py rates its rs sub = Inr (rs', sub') \<Longrightarrow>
     quote_loop (vals rates) (map selection_val its) rs (val sub) = Inr (rs', val sub')"
proof (induction its arbitrary: rs sub)
  case Nil
  then show ?case by simp
next
  case (Cons it its)
  from Cons.prems obtain r amount s where row: "price_row_py rates it = Inr (r, amount)"
    and s: "py_add sub amount = Inr s"
    and rest: "quote_loop_py rates its (rs @ [r]) s = Inr (rs', sub')"
    by (auto simp: and_then_Inr)
  from Cons.IH [OF rest] price_row_py_val [OF row] py_add_val [OF s]
  show ?case by simp
qed

lemma quote_totals_py_val:
  assumes "quote_totals_py rs ex sub d = Inr q"
  shows "q = quote_totals rs (vals ex) (vals ex) (val sub) (val d)"
proof -
  from assms obtain et st fr da tx pr gs gt where
    et: "(if ex \<noteq> [] then py_sum (map snd ex) (PyInt 0) else Inr (PyInt 0)) = Inr et"
    and st: "py_add sub et = Inr st"
    and fr: "py_truediv d (PyInt 100) = Inr fr"
    and da: "py_mul st fr = Inr da"
    and tx: "py_sub st da = Inr tx"
    and pr: "py_mul tx (PyInt 18) = Inr pr"
    and gs: "py_truediv pr (PyInt 100) = Inr gs"
    and gt: "py_add tx gs = Inr gt"
    and q: "q = \<lparr>rows = rs, extras = vals ex, subtotal = val st,
            discount_amt = val da, taxable = val tx,
            gst_amt = val gs, grand_total = val gt\<rparr>"
    unfolding quote_totals_py_def and_then_Inr by blast
  have et': "val et = sum_list (dict_values (vals ex))"
  proof (cases "ex = []")
    case True
    with et show ?thesis by (auto simp: vals_def dict_values_def)
  next
    case False
    with et have "py_sum (map snd ex) (PyInt 0) = Inr et" by simp
    from py_sum_val [OF this] show ?thesis
      by (simp add: vals_def dict_values_def comp_def)
  qed
  have st': "val st = val sub + sum_list (dict_values (vals ex))"
    using py_add_val [OF st] et' by simp
  have da': "val da = val st * (val d / 100)"
    using py_mul_val [OF da] py_truediv_val [OF fr] by simp
  have tx': "val tx = val st - val da"
    by (rule py_sub_val [OF tx])
  have gs': "val gs = val tx * 18 / 100"
    using py_truediv_val [OF gs] py_mul_val [OF pr] by simp
  have gt': "val gt = val tx + val gs"
    by (rule py_add_val [OF gt])
  have ex0: "(if vals ex \<noteq> [] then sum_list (dict_values (vals ex)) else 0) =
      sum_list (dict_values (vals ex))"
    by (simp add: dict_values_def)
  show ?thesis
    unfolding q quote_totals_def Let_def ex0 GST_PERCENT_def gt' gs' tx' da' st'
    by (rule refl)
qed

lemma calculate_quote_py_val:
  assumes "calculate_quote_py rates its ex d = Inr q"
  shows "calculate_quote (vals rates) (map selection_val its) (vals ex) (val d) = Inr q"
proof -
  from assms obtain rs sub where loop: "quote_loop_py rates its [] (PyInt 0) = Inr (rs, sub)"
    and tot: "quote_totals_py rs ex sub d = Inr q"
    by (auto simp: calculate_quote_py_def and_then_Inr)
  from quote_loop_py_val [OF loop] quote_totals_py_val [OF tot]
  show ?thesis by (simp add: calculate_quote_def)
qed

text \<open>
  It returns when no int it has to convert leaves the double range: an int subtotal
  of \<open>n\<close> lines within \<open>M\<close> stays within \<open>n * M * M\<close>.
\<close>

lemma and_then_simps:
  "and_then (Inr x) f = f x" "and_then (Inl err) f = Inl err"
  by (simp_all add: and_then_def)

lemma as_float_PyFloat: "as_float (PyFloat x) = Inr x"
  by (simp add: as_float_def)

lemma float_limit_gt: "100 < float_limit"
  by (simp add: float_limit_def)

lemma as_float_within:
  assumes "int_within M a" and "M < float_limit"
  shows "\<exists>x. as_float a = Inr x"
  using assms by (cases a) (auto simp: as_float_def int_within_def)

lemma py_binop_within:
  assumes a: "int_within K a" and b: "int_within K' b"
    and K: "K < float_limit" and K': "K' < float_limit"
    and ints: "\<And>m n. \<bar>m\<bar> \<le> K \<Longrightarrow> \<bar>n\<bar> \<le> K' \<Longrightarrow> \<bar>on_ints m n\<bar> \<le> K''"
  shows "\<exists>c. py_binop on_ints on_floats a b = Inr c \<and> int_within K'' c"
proof (cases "\<exists>m n. a = PyInt m \<and> b = PyInt n")
  case True
  then obtain m n where mn: "a = PyInt m" "b = PyInt n" by blast
  with a b have "\<bar>m\<bar> \<le> K" "\<bar>n\<bar> \<le> K'" by (simp_all add: int_within_def)
  from ints [OF this] show ?thesis
    by (simp add: mn py_binop_def int_within_def)
next
  case False
  from as_float_within [OF a K] obtain x where x: "as_float a = Inr x" by blast
  from as_float_within [OF b K'] obtain y where y: "as_float b = Inr y" by blast
  from False x y have "py_binop on_ints on_floats a b = Inr (PyFloat (on_floats x y))"
    by (cases a; cases b) (simp_all add: py_binop_def)
  then show ?thesis by (simp add: int_within_def)
qed

lemma py_add_within:
  assumes "int_within K a" and "int_within K' b" and "K < float_limit" and "K' < float_limit"
  shows "\<exists>c. py_add a b = Inr c \<and> int_within (K + K') c"
  unfolding py_add_def using assms by (rule py_binop_within) linarith

lemma py_mul_within:
  assumes "int_within K a" and "int_within K' b" and "K < float_limit" and "K' < float_limit"
  shows "\<exists>c. py_mul a b = Inr c \<and> int_within (K * K') c"
  unfolding py_mul_def using assms
proof (rule py_binop_within)
  fix m n :: int
  assume "\<bar>m\<bar> \<le> K" and "\<bar>n\<bar> \<le> K'"
  then have "\<bar>m\<bar> * \<bar>n\<bar> \<le> K * K'"
    by (intro mult_mono) simp_all
  then show "\<bar>m * n\<bar> \<le> K * K'" by (simp add: abs_mult)
qed

lemma py_binop_float_right:
  assumes "as_float a = Inr x"
  shows "py_binop on_ints on_floats a (PyFloat y) = Inr (PyFloat (on_floats x y))"
  using assms by (cases a) (simp_all add: py_binop_def as_float_def)

lemma py_binop_float_left:
  assumes "as_float b = Inr y"
  shows "py_binop on_ints on_floats (PyFloat x) b = Inr (PyFloat (on_floats x y))"
  using assms by (cases b) (simp_all add: py_binop_def as_float_def)

lemma py_truediv_100:
  assumes "int_within M d" and "M < float_limit"
  shows "\<exists>x. py_truediv d (PyInt 100) = Inr (PyFloat x)"
proof (cases d)
  case (PyInt n)
  with assms have "\<bar>n\<bar> < float_limit" by (simp add: int_within_def)
  then have "\<bar>of_int n :: rat\<bar> < of_int float_limit"
    by (metis of_int_abs of_int_less_iff)
  moreover have "\<bar>of_int n / 100 :: rat\<bar> \<le> \<bar>of_int n\<bar>"
    by (simp add: divide_le_eq)
  ultimately have "\<bar>of_int n / 100 :: rat\<bar> < of_int float_limit" by linarith
  then have "py_truediv d (PyInt 100) = Inr (PyFloat (of_int n / 100))"
    by (simp add: PyInt py_truediv_def)
  then show ?thesis by blast
next
  case (PyFloat x)
  have "as_float (PyInt 100) = Inr 100"
    using float_limit_gt by (simp add: as_float_def)
  then have "py_truediv d (PyInt 100) = Inr (PyFloat (x / 100))"
    by (simp add: PyFloat py_truediv_def as_float_PyFloat)
  then show ?thesis by blast
qed

lemma price_row_py_within:
  assumes nm: "py_name it = Some nm" and q: "py_qty it = Some q"
    and rates: "\<forall>v \<in> set (map snd rates). int_within M v"
    and qty: "int_within M q"
    and M: "0 \<le> M" "M < float_limit"
  shows "\<exists>r amount. price_row_py rates it = Inr (r, amount) \<and> int_within (M * M) amount"
proof -
  let ?rate = "case map_of rates nm of None \<Rightarrow> PyInt 0 | Some v \<Rightarrow> v"
  have "int_within M ?rate"
  proof (cases "map_of rates nm")
    case None
    with M show ?thesis by (simp add: int_within_def)
  next
    case (Some v)
    then have "v \<in> set (map snd rates)"
      by (auto dest!: map_of_SomeD intro: rev_image_eqI)
    with rates Some show ?thesis by auto
  qed
  from py_mul_within [OF this qty M(2) M(2)] obtain amount
    where "py_mul ?rate q = Inr amount" "int_within (M * M) amount" by blast
  then show ?thesis
    by (simp add: price_row_py_def nm q Let_def and_then_def)
qed

lemma quote_loop_py_within:
  assumes "\<forall>it \<in> set its. py_name it \<noteq> None \<and> py_qty it \<noteq> None"
    and "\<forall>v \<in> set (map snd rates). int_within M v"
    and "\<forall>it \<in> set its. \<forall>n. py_qty it = Some n \<longrightarrow> int_within M n"
    and "0 \<le> M" and "M < float_limit"
    and "int_within K sub" and "0 \<le> K"
    and "K + int (length its) * (M * M) < float_limit"
  shows "\<exists>rs' sub'. quote_loop_py rates its rs sub = Inr (rs', sub') \<and>
           int_within (K + int (length its) * (M * M)) sub'"
  using assms(1,3,6,7,8)
proof (induction its arbitrary: rs sub K)
  case Nil
  then show ?case by simp
next
  case (Cons it its)
  from Cons.prems(1) obtain nm q where nm: "py_name it = Some nm" and q: "py_qty it = Some q"
    by auto
  from Cons.prems(2) q have qw: "int_within M q" by simp
  from price_row_py_within [OF nm q assms(2) qw assms(4,5)] obtain r amount
    where row: "price_row_py rates it = Inr (r, amount)" and aw: "int_within (M * M) amount"
    by blast
  have MM: "0 \<le> M * M" using assms(4) by simp
  have rest0: "0 \<le> int (length its) * (M * M)" using MM by simp
  have room: "K + M * M + int (length its) * (M * M) < float_limit"
    using Cons.prems(5) by (simp add: algebra_simps)
  have K: "K < float_limit" using room MM rest0 by linarith
  have MM': "M * M < float_limit" using room Cons.prems(4) rest0 by linarith
  from py_add_within [OF Cons.prems(3) aw K MM'] obtain s
    where s: "py_add sub amount = Inr s" and sw: "int_within (K + M * M) s" by blast
  have K': "0 \<le> K + M * M" using Cons.prems(4) MM by simp
  from Cons.prems(1,2) have its: "\<forall>it \<in> set its. py_name it \<noteq> None \<and> py_qty it \<noteq> None"
    "\<forall>it \<in> set its. \<forall>n. py_qty it = Some n \<longrightarrow> int_within M n"
    by simp_all
  from Cons.IH [OF its sw K' room, of "rs @ [r]"] obtain rs' sub'
    where "quote_loop_py rates its (rs @ [r]) s = Inr (rs', sub')"
      and "int_within (K + M * M + int (length its) * (M * M)) sub'"
    by blast
  with row s show ?case
    by (simp add: and_then_def algebra_simps)
qed

lemma py_sum_within:
  assumes "\<forall>v \<in> set vs. int_within M v" and "0 \<le> M"
    and "int_within K result" and "0 \<le> K"
    and "K + int (length vs) * M < float_limit"
  shows "\<exists>r. py_sum vs result = Inr r \<and> int_within (K + int (length vs) * M) r"
  using assms(1,3,4,5)
proof (induction vs arbitrary: result K)
  case Nil
  then show ?case by simp
next
  case (Cons v vs)
  have rest0: "0 \<le> int (length vs) * M" using assms(2) by simp
  have room: "K + M + int (length vs) * M < float_limit"
    using Cons.prems(4) by (simp add: algebra_simps)
  have K: "K < float_limit" using room assms(2) rest0 by linarith
  have M: "M < float_limit" using room Cons.prems(3) rest0 by linarith
  from Cons.prems(1) have v: "int_within M v" by simp
  from py_add_within [OF Cons.prems(2) v K M] obtain s
    where s: "py_add result v = Inr s" and sw: "int_within (K + M) s" by blast
  have K': "0 \<le> K + M" using Cons.prems(3) assms(2) by simp
  from Cons.prems(1) have vs: "\<forall>v \<in> set vs. int_within M v" by simp
  from Cons.IH [OF vs sw K' room] obtain r
    where "py_sum vs s = Inr r" "int_within (K + M + int (length vs) * M) r" by blast
  with s show ?case by (simp add: and_then_def algebra_simps)
qed

lemma quote_totals_py_within:
  assumes ex: "\<forall>v \<in> set (map snd ex). int_within M v"
    and d: "int_within M d"
    and M: "0 \<le> M" "M < float_limit"
    and sub: "int_within A sub" "0 \<le> A"
    and room: "A + int (length ex) * M < float_limit"
  shows "\<exists>q. quote_totals_py rs ex sub d = Inr q"
proof -
  let ?B = "int (length ex) * M"
  have B0: "0 \<le> ?B" using M(1) by simp
  have "\<exists>et. (if ex \<noteq> [] then py_sum (map snd ex) (PyInt 0) else Inr (PyInt 0)) = Inr et \<and>
      int_within ?B et"
  proof (cases "ex = []")
    case True
    then show ?thesis by (simp add: int_within_def)
  next
    case False
    have z: "int_within 0 (PyInt 0)" by (simp add: int_within_def)
    have "0 + int (length (map snd ex)) * M < float_limit"
      using room sub(2) by simp
    from py_sum_within [OF ex M(1) z order_refl this] False show ?thesis by simp
  qed
  then obtain et
    where et: "(if ex \<noteq> [] then py_sum (map snd ex) (PyInt 0) else Inr (PyInt 0)) = Inr et"
      and etw: "int_within ?B et" by blast
  have A: "A < float_limit" and B: "?B < float_limit"
    using room sub(2) B0 by linarith+
  from py_add_within [OF sub(1) etw A B] obtain st
    where st: "py_add sub et = Inr st" and stw: "int_within (A + ?B) st" by blast
  from as_float_within [OF stw room] obtain sx where sx: "as_float st = Inr sx" by blast
  from py_truediv_100 [OF d M(2)] obtain f
    where fr: "py_truediv d (PyInt 100) = Inr (PyFloat f)" by blast
  have da: "py_mul st (PyFloat f) = Inr (PyFloat (sx * f))"
    unfolding py_mul_def by (rule py_binop_float_right [OF sx])
  have tx: "py_sub st (PyFloat (sx * f)) = Inr (PyFloat (sx - sx * f))"
    unfolding py_sub_def by (rule py_binop_float_right [OF sx])
  have c18: "as_float (PyInt 18) = Inr 18" and c100: "as_float (PyInt 100) = Inr 100"
    using float_limit_gt by (simp_all add: as_float_def)
  have pr: "py_mul (PyFloat (sx - sx * f)) (PyInt 18) = Inr (PyFloat ((sx - sx * f) * 18))"
    unfolding py_mul_def by (rule py_binop_float_left [OF c18])
  have gs: "py_truediv (PyFloat ((sx - sx * f) * 18)) (PyInt 100) =
      Inr (PyFloat ((sx - sx * f) * 18 / 100))"
    using c100 by (simp add: py_truediv_def as_float_PyFloat)
  have gf: "as_float (PyFloat ((sx - sx * f) * 18 / 100)) = Inr ((sx - sx * f) * 18 / 100)"
    by (simp add: as_float_def)
  have gt: "py_add (PyFloat (sx - sx * f)) (PyFloat ((sx - sx * f) * 18 / 100)) =
      Inr (PyFloat ((sx - sx * f) + (sx - sx * f) * 18 / 100))"
    unfolding py_add_def by (rule py_binop_float_left [OF gf])
  show ?thesis
    unfolding quote_totals_py_def et and_then_simps st fr da tx pr gs gt
    by blast
qed

lemma calculate_quote_py_within:
  assumes "\<forall>it \<in> set its. py_name it \<noteq> None \<and> py_qty it \<noteq> None"
    and "\<forall>v \<in> set (map snd rates). int_within M v"
    and "\<forall>it \<in> set its. \<forall>n. py_qty it = Some n \<longrightarrow> int_within M n"
    and "\<forall>v \<in> set (map snd ex). int_within M v"
    and "int_within M d"
    and "0 \<le> M" and "M < float_limit"
    and "int (length its) * (M * M) + int (length ex) * M < float_limit"
  shows "\<exists>q. calculate_quote_py rates its ex d = Inr q"
proof -
  let ?A = "int (length its) * (M * M)"
  have z: "int_within 0 (PyInt 0)" by (simp add: int_within_def)
  have A0: "0 \<le> ?A" using assms(6) by simp
  have "0 \<le> int (length ex) * M" using assms(6) by simp
  with assms(8) have "0 + ?A < float_limit" by linarith
  from quote_loop_py_within [OF assms(1,2,3,6,7) z order_refl this, of "[]"]
  obtain rs sub where loop: "quote_loop_py rates its [] (PyInt 0) = Inr (rs, sub)"
    and subw: "int_within ?A sub" by auto
  from quote_totals_py_within [OF assms(4,5,6,7) subw A0 assms(8), of rs]
  obtain q where "quote_totals_py rs ex sub d = Inr q" by blast
  with loop show ?thesis by (simp add: calculate_quote_py_def and_then_def)
qed

section \<open>Pricing identities\<close>

text \<open>
  Claim C1. Every quote that \<^verbatim>\<open>calculate_quote\<close> returns satisfies the pricing
  identities: each line total is the unit price (the catalog rate of the item, 0 for an
  unknown name) times the quantity, with no tax in it; the subtotal is the sum of the
  line totals plus the sum of the extra charges; the discount is the subtotal times the
  discount percentage divided by 100; the taxable amount is the subtotal minus the
  discount; the tax is \<open>GST_PERCENT\<close> per cent of the taxable amount, taken once; and
  the grand total is (subtotal minus discount) times (1 plus \<open>GST_PERCENT\<close>/100).
\<close>

theorem calculate_quote_pricing_identities:
  assumes "calculate_quote rates selected_items ex discount_percent = Inr q"
  shows "(\<forall>r \<in> set (rows q). Unit_Price r = dict_get rates (Item r) 0 \<and>
             Total r = Unit_Price r * Qty r) \<and>
         subtotal q = sum_list (map Total (rows q)) + sum_list (dict_values ex) \<and>
         discount_amt q = subtotal q * discount_percent / 100 \<and>
         taxable q = subtotal q - discount_amt q \<and>
         gst_amt q = taxable q * GST_PERCENT / 100 \<and>
         grand_total q = (subtotal q - discount_amt q) * (1 + GST_PERCENT / 100)"
proof -
  note facts = calculate_quote_Inr [OF assms]
  have lines: "\<forall>r \<in> set (rows q). Unit_Price r = dict_get rates (Item r) 0 \<and>
      Total r = Unit_Price r * Qty r"
  proof
    fix r assume "r \<in> set (rows q)"
    then have "Inr r \<in> set (map (price_row rates) selected_items)"
      using facts(1) by simp
    then obtain it where "price_row rates it = Inr r" by auto
    then show "Unit_Price r = dict_get rates (Item r) 0 \<and> Total r = Unit_Price r * Qty r"
      by (auto simp: price_row_Inr)
  qed
  let ?s = "sum_list (map Total (rows q))"
  have sub: "subtotal q = ?s + sum_list (dict_values ex)"
    by (subst facts(2)) (simp add: quote_totals_def Let_def dict_values_def)
  have disc: "discount_amt q = subtotal q * discount_percent / 100"
    by (subst (1 2) facts(2)) (simp add: quote_totals_def Let_def)
  have tax: "taxable q = subtotal q - discount_amt q"
    by (subst (1 2 3) facts(2)) (simp add: quote_totals_def Let_def)
  have gst: "gst_amt q = taxable q * GST_PERCENT / 100"
    by (subst (1 2) facts(2)) (simp add: quote_totals_def Let_def)
  have "grand_total q = taxable q + gst_amt q"
    by (subst (1 2 3) facts(2)) (simp add: quote_totals_def Let_def)
  then have grand: "grand_total q = (subtotal q - discount_amt q) * (1 + GST_PERCENT / 100)"
    by (simp add: gst tax algebra_simps)
  from lines sub disc tax gst grand show ?thesis by blast
qed

theorem calculate_quote_pricing_identities_witness:
  "calculate_quote SAMPLE_RATES
      [\<lparr>name = Some ''Steel (per ton)'', qty = Some (3 / 2), unit = None\<rparr>,
       \<lparr>name = Some ''Paint'', qty = Some 4, unit = Some ''sq.ft''\<rparr>]
      [(''Design Fee'', 1000), (''Misc Charges'', 250)] 5 =
    Inr \<lparr>rows = [\<lparr>Item = ''Steel (per ton)'', Qty = 3 / 2, Unit_Price = 65000, Total = 97500\<rparr>,
                 \<lparr>Item = ''Paint'', Qty = 4, Unit_Price = 0, Total = 0\<rparr>],
         extras = [(''Design Fee'', 1000), (''Misc Charges'', 250)],
         subtotal = 98750, discount_amt = 9875 / 2, taxable = 187625 / 2,
         gst_amt = 337725 / 20, grand_total = 2213975 / 20\<rparr>"
proof -
  have call: "calculate_quote SAMPLE_RATES
      [\<lparr>name = Some ''Steel (per ton)'', qty = Some (3 / 2), unit = None\<rparr>,
       \<lparr>name = Some ''Paint'', qty = Some 4, unit = Some ''sq.ft''\<rparr>]
      [(''Design Fee'', 1000), (''Misc Charges'', 250)] 5 =
    Inr \<lparr>rows = [\<lparr>Item = ''Steel (per ton)'', Qty = 3 / 2, Unit_Price = 65000, Total = 97500\<rparr>,
                 \<lparr>Item = ''Paint'', Qty = 4, Unit_Price = 0, Total = 0\<rparr>],
         extras = [(''Design Fee'', 1000), (''Misc Charges'', 250)],
         subtotal = 98750, discount_amt = 9875 / 2, taxable = 187625 / 2,
         gst_amt = 337725 / 20, grand_total = 2213975 / 20\<rparr>"
    by (simp add: quote_eval SAMPLE_RATES_def)
  from calculate_quote_pricing_identities [OF call] call show ?thesis
    by simp
qed

section \<open>The examples of the specification\<close>

text \<open>
  Claim C4. With the rate 420 for Cement, one selection of 10 Cement and the tax rate
  18: the extras \<^verbatim>\<open>{"Design Fee": 1000}\<close> and a discount of 10 per cent give the
  subtotal 5200, the discount 520, the taxable amount 4680, the tax 842.4 and the grand
  total 5522.4; no extras and no discount give 4200, 0, 4200, 756 and 4956.
\<close>

theorem calculate_quote_examples:
  "GST_PERCENT = 18 \<and>
   calculate_quote [(''Cement'', 420)]
      [\<lparr>name = Some ''Cement'', qty = Some 10, unit = None\<rparr>] [(''Design Fee'', 1000)] 10 =
    Inr \<lparr>rows = [\<lparr>Item = ''Cement'', Qty = 10, Unit_Price = 420, Total = 4200\<rparr>],
         extras = [(''Design Fee'', 1000)],
         subtotal = 5200, discount_amt = 520, taxable = 4680,
         gst_amt = 842.4, grand_total = 5522.4\<rparr> \<and>
   calculate_quote [(''Cement'', 420)]
      [\<lparr>name = Some ''Cement'', qty = Some 10, unit = None\<rparr>] [] 0 =
    Inr \<lparr>rows = [\<lparr>Item = ''Cement'', Qty = 10, Unit_Price = 420, Total = 4200\<rparr>],
         extras = [],
         subtotal = 4200, discount_amt = 0, taxable = 4200,
         gst_amt = 756, grand_total = 4956\<rparr>"
  by (simp add: quote_eval)

section \<open>Rows\<close>

text \<open>
  Claim C9. On selections that carry their two keys, \<^verbatim>\<open>calculate_quote\<close> returns a
  quote whose rows are exactly one per selection: as many rows as selections, and the
  row at each position has the item name and the quantity of the selection at that
  position, whatever the quantity (0 too) and whether or not the catalog has the name.
\<close>

theorem one_row_per_selection:
  assumes "\<forall>it \<in> set selected_items. name it \<noteq> None \<and> qty it \<noteq> None"
  shows "\<exists>q. calculate_quote rates selected_items ex discount_percent = Inr q \<and>
           length (rows q) = length selected_items \<and>
           (\<forall>i < length selected_items.
              name (selected_items ! i) = Some (Item (rows q ! i)) \<and>
              qty (selected_items ! i) = Some (Qty (rows q ! i)))"
proof -
  from calculate_quote_total [OF assms] obtain q
    where q: "calculate_quote rates selected_items ex discount_percent = Inr q"
    by blast
  have "map (price_row rates) selected_items = map Inr (rows q)"
    by (rule calculate_quote_Inr(1) [OF q])
  then have len: "length (rows q) = length selected_items"
    by (metis length_map)
  have "name (selected_items ! i) = Some (Item (rows q ! i)) \<and>
        qty (selected_items ! i) = Some (Qty (rows q ! i))"
    if "i < length selected_items" for i
    using rows_nth(2) [OF q that] by (auto simp: price_row_Inr)
  with q len show ?thesis by blast
qed

theorem one_row_per_selection_witness:
  "calculate_quote SAMPLE_RATES
      [\<lparr>name = Some ''Sand (per cu.m)'', qty = Some 0, unit = None\<rparr>,
       \<lparr>name = Some ''Paint'', qty = Some 4, unit = None\<rparr>,
       \<lparr>name = Some ''Bricks (1000 nos)'', qty = Some 2, unit = None\<rparr>] [] 0 =
    Inr \<lparr>rows = [\<lparr>Item = ''Sand (per cu.m)'', Qty = 0, Unit_Price = 1500, Total = 0\<rparr>,
                 \<lparr>Item = ''Paint'', Qty = 4, Unit_Price = 0, Total = 0\<rparr>,
                 \<lparr>Item = ''Bricks (1000 nos)'', Qty = 2, Unit_Price = 7000, Total = 14000\<rparr>],
         extras = [], subtotal = 14000, discount_amt = 0, taxable = 14000,
         gst_amt = 2520, grand_total = 16520\<rparr>"
proof -
  let ?sel = "[\<lparr>name = Some ''Sand (per cu.m)'', qty = Some (0 :: num), unit = None\<rparr>,
       \<lparr>name = Some ''Paint'', qty = Some 4, unit = None\<rparr>,
       \<lparr>name = Some ''Bricks (1000 nos)'', qty = Some 2, unit = None\<rparr>]"
  have wf: "\<forall>it \<in> set ?sel. name it \<noteq> None \<and> qty it \<noteq> None" by simp
  from one_row_per_selection [OF wf, of SAMPLE_RATES "[]" 0] show ?thesis
    by (simp add: quote_eval SAMPLE_RATES_def)
qed

text \<open>
  Claim C2, as amended. \<^verbatim>\<open>calculate_quote\<close> does not drop a selection of quantity 0:
  the row at its position has its name, the quantity 0 and the line total 0. It is the
  Quote Builder form that leaves such items out, appending an item only when its box is
  ticked and its quantity is positive: a quote computed from the form's selections has
  one row for each catalog entry that is ticked with a positive quantity, in catalog
  order, and no other row; each row is of a ticked item, with the quantity entered for
  it, which is positive.
\<close>

theorem zero_quantity_row_kept:
  assumes "calculate_quote rates selected_items ex discount_percent = Inr q"
    and "i < length selected_items"
    and "qty (selected_items ! i) = Some 0"
  shows "i < length (rows q) \<and> name (selected_items ! i) = Some (Item (rows q ! i)) \<and>
         Qty (rows q ! i) = 0 \<and> Total (rows q ! i) = 0 \<and>
         (\<exists>q'. calculate_quote rates (form_selected_items include qty_of cat) ex discount_percent
                  = Inr q' \<and>
               map Item (rows q') =
                 map fst (filter (\<lambda>kv. include (fst kv) \<and> 0 < qty_of (fst kv)) cat) \<and>
               (\<forall>r \<in> set (rows q').
                  include (Item r) \<and> Qty r = qty_of (Item r) \<and> 0 < Qty r))"
proof -
  have row: "i < length (rows q) \<and> name (selected_items ! i) = Some (Item (rows q ! i)) \<and>
         Qty (rows q ! i) = 0 \<and> Total (rows q ! i) = 0"
    using rows_nth [OF assms(1,2)] assms(3) by (auto simp: price_row_Inr)
  let ?keep = "filter (\<lambda>kv. include (fst kv) \<and> 0 < qty_of (fst kv)) cat"
  let ?sel = "form_selected_items include qty_of cat"
  have sel: "?sel =
      map (\<lambda>kv. \<lparr>name = Some (fst kv), qty = Some (qty_of (fst kv)), unit = None\<rparr>) ?keep"
    by (rule form_selected_items_eq)
  have "\<forall>it \<in> set ?sel. name it \<noteq> None \<and> qty it \<noteq> None"
    unfolding sel by simp
  from calculate_quote_total [OF this] obtain q'
    where q': "calculate_quote rates ?sel ex discount_percent = Inr q'"
    by blast
  have m: "map (price_row rates) ?sel = map Inr (rows q')"
    by (rule calculate_quote_Inr(1) [OF q'])
  have priced: "map (price_row rates) ?sel =
      map (\<lambda>kv. Inr \<lparr>Item = fst kv, Qty = qty_of (fst kv),
                      Unit_Price = dict_get rates (fst kv) 0,
                      Total = dict_get rates (fst kv) 0 * qty_of (fst kv)\<rparr>) ?keep"
    unfolding sel by (simp add: price_row_def Let_def)
  have "map (Inr :: row \<Rightarrow> error + row) (rows q') =
      map Inr (map (\<lambda>kv. \<lparr>Item = fst kv, Qty = qty_of (fst kv),
                      Unit_Price = dict_get rates (fst kv) 0,
                      Total = dict_get rates (fst kv) 0 * qty_of (fst kv)\<rparr>) ?keep)"
    using m priced by (simp add: comp_def)
  then have rws: "rows q' =
      map (\<lambda>kv. \<lparr>Item = fst kv, Qty = qty_of (fst kv),
                      Unit_Price = dict_get rates (fst kv) 0,
                      Total = dict_get rates (fst kv) 0 * qty_of (fst kv)\<rparr>) ?keep"
    by (rule map_injective) (rule inj_Inr)
  have items: "map Item (rows q') = map fst ?keep"
    unfolding rws by simp
  have each: "\<forall>r \<in> set (rows q'). include (Item r) \<and> Qty r = qty_of (Item r) \<and> 0 < Qty r"
    unfolding rws by auto
  from row q' items each show ?thesis by blast
qed

theorem zero_quantity_row_kept_witness:
  "calculate_quote SAMPLE_RATES
      [\<lparr>name = Some ''Steel (per ton)'', qty = Some 2, unit = None\<rparr>,
       \<lparr>name = Some ''Cement (bag, 50kg)'', qty = Some 0, unit = None\<rparr>] [] 0 =
    Inr \<lparr>rows = [\<lparr>Item = ''Steel (per ton)'', Qty = 2, Unit_Price = 65000, Total = 130000\<rparr>,
                 \<lparr>Item = ''Cement (bag, 50kg)'', Qty = 0, Unit_Price = 420, Total = 0\<rparr>],
         extras = [], subtotal = 130000, discount_amt = 0, taxable = 130000,
         gst_amt = 23400, grand_total = 153400\<rparr> \<and>
   form_selected_items (\<lambda>nm. nm \<noteq> ''Sand (per cu.m)'')
      (\<lambda>nm. if nm = ''Steel (per ton)'' then 2 else if nm = ''Sand (per cu.m)'' then 5 else 0)
      SAMPLE_RATES =
     [\<lparr>name = Some ''Steel (per ton)'', qty = Some 2, unit = None\<rparr>] \<and>
   calculate_quote SAMPLE_RATES
     (form_selected_items (\<lambda>nm. nm \<noteq> ''Sand (per cu.m)'')
        (\<lambda>nm. if nm = ''Steel (per ton)'' then 2 else if nm = ''Sand (per cu.m)'' then 5 else 0)
        SAMPLE_RATES)
     [] 0 =
    Inr \<lparr>rows = [\<lparr>Item = ''Steel (per ton)'', Qty = 2, Unit_Price = 65000, Total = 130000\<rparr>],
         extras = [], subtotal = 130000, discount_amt = 0, taxable = 130000,
         gst_amt = 23400, grand_total = 153400\<rparr>"
proof -
  have call: "calculate_quote SAMPLE_RATES
      [\<lparr>name = Some ''Steel (per ton)'', qty = Some 2, unit = None\<rparr>,
       \<lparr>name = Some ''Cement (bag, 50kg)'', qty = Some 0, unit = None\<rparr>] [] 0 =
    Inr \<lparr>rows = [\<lparr>Item = ''Steel (per ton)'', Qty = 2, Unit_Price = 65000, Total = 130000\<rparr>,
                 \<lparr>Item = ''Cement (bag, 50kg)'', Qty = 0, Unit_Price = 420, Total = 0\<rparr>],
         extras = [], subtotal = 130000, discount_amt = 0, taxable = 130000,
         gst_amt = 23400, grand_total = 153400\<rparr>"
    by (simp add: quote_eval SAMPLE_RATES_def)
  have form: "form_selected_items (\<lambda>nm. nm \<noteq> ''Sand (per cu.m)'')
      (\<lambda>nm. if nm = ''Steel (per ton)'' then 2 else if nm = ''Sand (per cu.m)'' then 5 else 0)
      SAMPLE_RATES = [\<lparr>name = Some ''Steel (per ton)'', qty = Some 2, unit = None\<rparr>]"
    by (simp add: form_selected_items_def SAMPLE_RATES_def)
  have call': "calculate_quote SAMPLE_RATES
      [\<lparr>name = Some ''Steel (per ton)'', qty = Some 2, unit = None\<rparr>] [] 0 =
    Inr \<lparr>rows = [\<lparr>Item = ''Steel (per ton)'', Qty = 2, Unit_Price = 65000, Total = 130000\<rparr>],
         extras = [], subtotal = 130000, discount_amt = 0, taxable = 130000,
         gst_amt = 23400, grand_total = 153400\<rparr>"
    by (simp add: quote_eval SAMPLE_RATES_def)
  from zero_quantity_row_kept [OF call, of 1] call form call' show ?thesis
    by simp
qed

text \<open>
  The claim as the specification states it (a selection of quantity 0 produces no row)
  fails on a single selection of 0 bags of cement: the quote has one row, of total 0.
\<close>

theorem zero_quantity_counterexample:
  "calculate_quote SAMPLE_RATES
      [\<lparr>name = Some ''Cement (bag, 50kg)'', qty = Some 0, unit = None\<rparr>] [] 0 =
    Inr \<lparr>rows = [\<lparr>Item = ''Cement (bag, 50kg)'', Qty = 0, Unit_Price = 420, Total = 0\<rparr>],
         extras = [], subtotal = 0, discount_amt = 0, taxable = 0,
         gst_amt = 0, grand_total = 0\<rparr>"
  by (simp add: quote_eval SAMPLE_RATES_def)

text \<open>
  Claim C3. On selections that carry their two keys the function returns a quote, and
  in it a selection whose name the catalog does not have is priced at zero: its row has
  the unit price 0 and the line total 0. No error comes from an unknown name.
\<close>

theorem unknown_item_priced_at_zero:
  assumes "\<forall>it \<in> set selected_items. name it \<noteq> None \<and> qty it \<noteq> None"
  shows "\<exists>q. calculate_quote rates selected_items ex discount_percent = Inr q \<and>
           (\<forall>i < length selected_items. \<forall>nm.
              name (selected_items ! i) = Some nm \<and> map_of rates nm = None \<longrightarrow>
              i < length (rows q) \<and> Item (rows q ! i) = nm \<and>
              Unit_Price (rows q ! i) = 0 \<and> Total (rows q ! i) = 0)"
proof -
  from calculate_quote_total [OF assms] obtain q
    where q: "calculate_quote rates selected_items ex discount_percent = Inr q"
    by blast
  have "i < length (rows q) \<and> Item (rows q ! i) = nm \<and>
        Unit_Price (rows q ! i) = 0 \<and> Total (rows q ! i) = 0"
    if "i < length selected_items" and "name (selected_items ! i) = Some nm"
      and "map_of rates nm = None" for i nm
    using rows_nth [OF q that(1)] that(2,3)
    by (auto simp: price_row_Inr dict_get_def)
  with q show ?thesis by blast
qed

theorem unknown_item_priced_at_zero_witness:
  "calculate_quote SAMPLE_RATES
      [\<lparr>name = Some ''Paint'', qty = Some 4, unit = None\<rparr>] [] 0 =
    Inr \<lparr>rows = [\<lparr>Item = ''Paint'', Qty = 4, Unit_Price = 0, Total = 0\<rparr>],
         extras = [], subtotal = 0, discount_amt = 0, taxable = 0,
         gst_amt = 0, grand_total = 0\<rparr> \<and>
   map_of SAMPLE_RATES ''Paint'' = None"
proof -
  let ?sel = "[\<lparr>name = Some ''Paint'', qty = Some (4 :: num), unit = None\<rparr>]"
  have wf: "\<forall>it \<in> set ?sel. name it \<noteq> None \<and> qty it \<noteq> None" by simp
  from unknown_item_priced_at_zero [OF wf, of SAMPLE_RATES "[]" 0] show ?thesis
    by (simp add: quote_eval SAMPLE_RATES_def)
qed

text \<open>
  Claim C8. The rows follow the order of the selections (names and quantities, position
  by position), and the table of the report lists the header, then the rows in that
  order, then the extra charges in the order of the extras dict.
\<close>

theorem rows_then_extras_in_order:
  assumes "calculate_quote rates selected_items ex discount_percent = Inr q"
  shows "map (\<lambda>r. Some (Item r)) (rows q) = map name selected_items \<and>
         map (\<lambda>r. Some (Qty r)) (rows q) = map qty selected_items \<and>
         pdf_table_data q = table_header # map row_line (rows q) @ map extra_line ex \<and>
         map hd (pdf_table_data q) =
           Text ''Item'' # map (\<lambda>r. Text (Item r)) (rows q) @ map (\<lambda>kv. Text (fst kv)) ex"
proof -
  have m: "map (price_row rates) selected_items = map Inr (rows q)"
    by (rule calculate_quote_Inr(1) [OF assms])
  then have len: "length (rows q) = length selected_items"
    by (metis length_map)
  have nth: "name (selected_items ! i) = Some (Item (rows q ! i)) \<and>
        qty (selected_items ! i) = Some (Qty (rows q ! i))"
    if "i < length selected_items" for i
    using rows_nth(2) [OF assms that] by (auto simp: price_row_Inr)
  have names: "map (\<lambda>r. Some (Item r)) (rows q) = map name selected_items"
    by (rule nth_equalityI) (simp_all add: len nth)
  have qtys: "map (\<lambda>r. Some (Qty r)) (rows q) = map qty selected_items"
    by (rule nth_equalityI) (simp_all add: len nth)
  have tbl: "pdf_table_data q = table_header # map row_line (rows q) @ map extra_line ex"
    by (simp add: pdf_table_data_eq calculate_quote_extras [OF assms])
  have col: "map hd (pdf_table_data q) =
      Text ''Item'' # map (\<lambda>r. Text (Item r)) (rows q) @ map (\<lambda>kv. Text (fst kv)) ex"
    by (simp add: tbl table_header_def row_line_def extra_line_def comp_def split: prod.splits)
  from names qtys tbl col show ?thesis by blast
qed

theorem rows_then_extras_in_order_witness:
  "calculate_quote SAMPLE_RATES
      [\<lparr>name = Some ''Steel (per ton)'', qty = Some 2, unit = None\<rparr>,
       \<lparr>name = Some ''Cement (bag, 50kg)'', qty = Some 10, unit = None\<rparr>]
      [(''Design Fee'', 1000), (''Misc Charges'', 250)] 0 =
    Inr \<lparr>rows = [\<lparr>Item = ''Steel (per ton)'', Qty = 2, Unit_Price = 65000, Total = 130000\<rparr>,
                 \<lparr>Item = ''Cement (bag, 50kg)'', Qty = 10, Unit_Price = 420, Total = 4200\<rparr>],
         extras = [(''Design Fee'', 1000), (''Misc Charges'', 250)],
         subtotal = 135450, discount_amt = 0, taxable = 135450,
         gst_amt = 24381, grand_total = 159831\<rparr> \<and>
   pdf_table_data
     \<lparr>rows = [\<lparr>Item = ''Steel (per ton)'', Qty = 2, Unit_Price = 65000, Total = 130000\<rparr>,
                 \<lparr>Item = ''Cement (bag, 50kg)'', Qty = 10, Unit_Price = 420, Total = 4200\<rparr>],
         extras = [(''Design Fee'', 1000), (''Misc Charges'', 250)],
         subtotal = 135450, discount_amt = 0, taxable = 135450,
         gst_amt = 24381, grand_total = 159831\<rparr> =
    [[Text ''Item'', Text ''Qty'', Text ''Unit Price (INR)'', Text ''Total (INR)''],
     [Text ''Steel (per ton)'', Number 2, Grouped 65000, Grouped 130000],
     [Text ''Cement (bag, 50kg)'', Number 10, Grouped 420, Grouped 4200],
     [Text ''Design Fee'', Text ''-'', Text ''-'', Grouped 1000],
     [Text ''Misc Charges'', Text ''-'', Text ''-'', Grouped 250]]"
proof -
  have call: "calculate_quote SAMPLE_RATES
      [\<lparr>name = Some ''Steel (per ton)'', qty = Some 2, unit = None\<rparr>,
       \<lparr>name = Some ''Cement (bag, 50kg)'', qty = Some 10, unit = None\<rparr>]
      [(''Design Fee'', 1000), (''Misc Charges'', 250)] 0 =
    Inr \<lparr>rows = [\<lparr>Item = ''Steel (per ton)'', Qty = 2, Unit_Price = 65000, Total = 130000\<rparr>,
                 \<lparr>Item = ''Cement (bag, 50kg)'', Qty = 10, Unit_Price = 420, Total = 4200\<rparr>],
         extras = [(''Design Fee'', 1000), (''Misc Charges'', 250)],
         subtotal = 135450, discount_amt = 0, taxable = 135450,
         gst_amt = 24381, grand_total = 159831\<rparr>"
    by (simp add: quote_eval SAMPLE_RATES_def)
  from rows_then_extras_in_order [OF call] call show ?thesis
    by (simp add: table_header_def row_line_def extra_line_def)
qed

section \<open>Degenerate inputs and signs\<close>

text \<open>
  Claim C6, as amended. \<^verbatim>\<open>calculate_quote\<close> returns a quote, and raises nothing, on
  every input (of ints and finite floats) whose selections carry their two keys and
  whose ints stay in the range of a float: every int among the rates, the quantities, the extra charges and the
  discount percentage within some \<open>M\<close> below the conversion limit, with room under the
  limit for an int subtotal of all the lines and extras (any \<open>M\<close> for inputs of floats
  only). The quote is the one of \<open>calculate_quote\<close> on the values. When there is nothing
  to price and no extras (no selections, or an empty catalog, or a catalog of zero
  rates, together with an empty extras dict) every monetary field of the quote is zero;
  with no selections and no extras the quote is the empty one, subtotal 0 and grand
  total 0.
\<close>

theorem calculate_quote_returns_in_float_range:
  assumes "\<forall>it \<in> set selected_items. py_name it \<noteq> None \<and> py_qty it \<noteq> None"
    and "\<forall>v \<in> set (map snd rates). int_within M v"
    and "\<forall>it \<in> set selected_items. \<forall>n. py_qty it = Some n \<longrightarrow> int_within M n"
    and "\<forall>v \<in> set (map snd ex). int_within M v"
    and "int_within M discount_percent"
    and "0 \<le> M" and "M < float_limit"
    and "int (length selected_items) * (M * M) + int (length ex) * M < float_limit"
  shows "\<exists>q. calculate_quote_py rates selected_items ex discount_percent = Inr q \<and>
           calculate_quote (vals rates) (map selection_val selected_items) (vals ex)
             (val discount_percent) = Inr q \<and>
           (ex = [] \<and> (selected_items = [] \<or> rates = [] \<or>
                        (\<forall>v \<in> set (map snd rates). val v = 0)) \<longrightarrow>
              (\<forall>r \<in> set (rows q). Unit_Price r = 0 \<and> Total r = 0) \<and>
              subtotal q = 0 \<and> discount_amt q = 0 \<and> taxable q = 0 \<and>
              gst_amt q = 0 \<and> grand_total q = 0) \<and>
           (ex = [] \<and> selected_items = [] \<longrightarrow>
              q = \<lparr>rows = [], extras = [], subtotal = 0, discount_amt = 0, taxable = 0,
                   gst_amt = 0, grand_total = 0\<rparr>)"
proof -
  from calculate_quote_py_within [OF assms] obtain q
    where q: "calculate_quote_py rates selected_items ex discount_percent = Inr q"
    by blast
  have v: "calculate_quote (vals rates) (map selection_val selected_items) (vals ex)
      (val discount_percent) = Inr q"
    by (rule calculate_quote_py_val [OF q])
  have zero: "(\<forall>r \<in> set (rows q). Unit_Price r = 0 \<and> Total r = 0) \<and>
              subtotal q = 0 \<and> discount_amt q = 0 \<and> taxable q = 0 \<and>
              gst_amt q = 0 \<and> grand_total q = 0"
    if ex: "ex = []"
      and deg: "selected_items = [] \<or> rates = [] \<or> (\<forall>v \<in> set (map snd rates). val v = 0)"
  proof (rule degenerate_quote_zero [OF v])
    show "vals ex = []" using ex by (simp add: vals_def)
    from deg show "map selection_val selected_items = [] \<or> vals rates = [] \<or>
        (\<forall>v \<in> set (dict_values (vals rates)). v = 0)"
      by (auto simp: vals_def dict_values_def)
  qed
  have empty: "q = \<lparr>rows = [], extras = [], subtotal = 0, discount_amt = 0, taxable = 0,
                   gst_amt = 0, grand_total = 0\<rparr>"
    if "ex = []" and "selected_items = []"
    using v that by (simp add: quote_eval vals_def)
  from q v zero empty show ?thesis by blast
qed

theorem calculate_quote_returns_in_float_range_witness:
  "calculate_quote_py [(''Cement'', PyInt 0), (''Sand'', PyFloat 0)]
      [\<lparr>py_name = Some ''Cement'', py_qty = Some (PyInt 10), py_unit = None\<rparr>,
       \<lparr>py_name = Some ''Paint'', py_qty = Some (PyFloat 3), py_unit = None\<rparr>] [] (PyInt 10) =
    Inr \<lparr>rows = [\<lparr>Item = ''Cement'', Qty = 10, Unit_Price = 0, Total = 0\<rparr>,
                 \<lparr>Item = ''Paint'', Qty = 3, Unit_Price = 0, Total = 0\<rparr>],
         extras = [], subtotal = 0, discount_amt = 0, taxable = 0,
         gst_amt = 0, grand_total = 0\<rparr>"
proof -
  let ?rates = "[(''Cement'', PyInt 0), (''Sand'', PyFloat 0)]"
  let ?sel = "[\<lparr>py_name = Some ''Cement'', py_qty = Some (PyInt 10), py_unit = None\<rparr>,
       \<lparr>py_name = Some ''Paint'', py_qty = Some (PyFloat 3), py_unit = None\<rparr>]"
  have keys: "\<forall>it \<in> set ?sel. py_name it \<noteq> None \<and> py_qty it \<noteq> None" by simp
  have rates: "\<forall>v \<in> set (map snd ?rates). int_within 1000 v"
    by (simp add: int_within_def)
  have qtys: "\<forall>it \<in> set ?sel. \<forall>n. py_qty it = Some n \<longrightarrow> int_within 1000 n"
    by (simp add: int_within_def)
  have ex: "\<forall>v \<in> set (map snd ([] :: py_dict)). int_within 1000 v" by simp
  have d: "int_within 1000 (PyInt 10)" by (simp add: int_within_def)
  have M: "(0 :: int) \<le> 1000" "1000 < float_limit" by (simp_all add: float_limit_def)
  have room: "int (length ?sel) * (1000 * 1000) + int (length ([] :: py_dict)) * 1000
      < float_limit"
    by (simp add: float_limit_def)
  from calculate_quote_returns_in_float_range [OF keys rates qtys ex d M room]
  show ?thesis
    by (simp add: py_eval)
qed

text \<open>
  The claim as the specification states it fails in two ways. A degenerate input is not
  zero-valued when there are extras: no selections, or a catalog of zero rates, with a
  design fee of 1000 give the subtotal 1000 and the grand total 1180. And the function
  can raise: with the int quantity \<open>10 ^ 400\<close> the int subtotal cannot be converted for
  the multiplication by the discount fraction (line 99), and the call ends in
  \<^verbatim>\<open>OverflowError\<close>.
\<close>

theorem degenerate_inputs_counterexample:
  "calculate_quote_py [(''Cement'', PyInt 420)] [] [(''Design Fee'', PyInt 1000)] (PyInt 0) =
    Inr \<lparr>rows = [], extras = [(''Design Fee'', 1000)], subtotal = 1000, discount_amt = 0,
         taxable = 1000, gst_amt = 180, grand_total = 1180\<rparr> \<and>
   calculate_quote_py [(''Cement'', PyInt 0)]
      [\<lparr>py_name = Some ''Cement'', py_qty = Some (PyInt 10), py_unit = None\<rparr>]
      [(''Design Fee'', PyInt 1000)] (PyInt 0) =
    Inr \<lparr>rows = [\<lparr>Item = ''Cement'', Qty = 10, Unit_Price = 0, Total = 0\<rparr>],
         extras = [(''Design Fee'', 1000)], subtotal = 1000, discount_amt = 0,
         taxable = 1000, gst_amt = 180, grand_total = 1180\<rparr> \<and>
   calculate_quote_py [(''Cement'', PyInt 420)]
      [\<lparr>py_name = Some ''Cement'', py_qty = Some (PyInt (10 ^ 400)), py_unit = None\<rparr>]
      [] (PyInt 0) =
    Inl OverflowError"
  by (simp add: py_eval)

text \<open>
  Claim C7, as amended. With non-negative rates, quantities and extra charges, the unit
  prices, the line totals and the subtotal are non-negative. The discount is
  non-negative when the discount percentage is, so it is negative only for a negative
  percentage. The taxable amount, the tax and the grand total are non-negative when the
  percentage is at most 100, so any of them is negative only for a percentage above 100.
\<close>

theorem monetary_fields_sign:
  assumes "calculate_quote rates selected_items ex discount_percent = Inr q"
    and "\<forall>v \<in> set (dict_values rates). 0 \<le> v"
    and "\<forall>it \<in> set selected_items. \<forall>n. qty it = Some n \<longrightarrow> 0 \<le> n"
    and "\<forall>v \<in> set (dict_values ex). 0 \<le> v"
  shows "(\<forall>r \<in> set (rows q). 0 \<le> Unit_Price r \<and> 0 \<le> Total r) \<and>
         0 \<le> subtotal q \<and>
         (0 \<le> discount_percent \<longrightarrow> 0 \<le> discount_amt q) \<and>
         (discount_percent \<le> 100 \<longrightarrow>
            0 \<le> taxable q \<and> 0 \<le> gst_amt q \<and> 0 \<le> grand_total q) \<and>
         (discount_amt q < 0 \<longrightarrow> discount_percent < 0) \<and>
         (taxable q < 0 \<or> gst_amt q < 0 \<or> grand_total q < 0 \<longrightarrow> 100 < discount_percent)"
proof -
  note facts = calculate_quote_Inr [OF assms(1)]
  note fields = quote_totals_fields [OF facts(2)]
  have lines: "\<forall>r \<in> set (rows q). 0 \<le> Unit_Price r \<and> 0 \<le> Total r"
  proof
    fix r assume r: "r \<in> set (rows q)"
    from row_of_selection [OF assms(1) r] obtain it
      where it: "it \<in> set selected_items" "price_row rates it = Inr r" by blast
    from it(2) obtain nm n where nm: "name it = Some nm" "qty it = Some n"
      and r_eq: "Unit_Price r = dict_get rates nm 0" "Total r = dict_get rates nm 0 * n"
      by (auto simp: price_row_Inr)
    from assms(3) it(1) nm(2) have "0 \<le> n" by blast
    moreover have "0 \<le> dict_get rates nm 0" by (rule dict_get_nonneg [OF assms(2)])
    ultimately show "0 \<le> Unit_Price r \<and> 0 \<le> Total r"
      by (simp add: r_eq)
  qed
  then have "0 \<le> sum_list (map Total (rows q))"
    by (intro sum_list_nonneg_num) simp
  moreover have "0 \<le> sum_list (dict_values ex)"
    by (rule sum_list_nonneg_num [OF assms(4)])
  ultimately have sub: "0 \<le> subtotal q" by (simp add: fields(1))
  have disc: "0 \<le> discount_amt q" if "0 \<le> discount_percent"
    using sub that by (simp add: fields(2))
  have tax_eq: "taxable q = subtotal q * ((100 - discount_percent) / 100)"
    by (simp add: fields(2,3) algebra_simps diff_divide_distrib)
  have tax: "0 \<le> taxable q" if "discount_percent \<le> 100"
    unfolding tax_eq using sub that by (intro mult_nonneg_nonneg) simp_all
  have gst: "0 \<le> gst_amt q" if "discount_percent \<le> 100"
    using tax [OF that] by (simp add: fields(4) GST_PERCENT_def)
  have grand: "0 \<le> grand_total q" if "discount_percent \<le> 100"
    using tax [OF that] gst [OF that] by (simp add: fields(5))
  have d1: "discount_percent < 0" if "discount_amt q < 0"
    using disc that by (meson not_le)
  have d2: "100 < discount_percent" if "taxable q < 0 \<or> gst_amt q < 0 \<or> grand_total q < 0"
    using tax gst grand that by (meson not_le)
  from lines sub disc tax gst grand d1 d2 show ?thesis by blast
qed

theorem monetary_fields_sign_witness:
  "calculate_quote SAMPLE_RATES
      [\<lparr>name = Some ''Cement (bag, 50kg)'', qty = Some 10, unit = None\<rparr>]
      [(''Design Fee'', 1000)] 10 =
    Inr \<lparr>rows = [\<lparr>Item = ''Cement (bag, 50kg)'', Qty = 10, Unit_Price = 420, Total = 4200\<rparr>],
         extras = [(''Design Fee'', 1000)],
         subtotal = 5200, discount_amt = 520, taxable = 4680,
         gst_amt = 842.4, grand_total = 5522.4\<rparr>"
proof -
  have call: "calculate_quote SAMPLE_RATES
      [\<lparr>name = Some ''Cement (bag, 50kg)'', qty = Some 10, unit = None\<rparr>]
      [(''Design Fee'', 1000)] 10 =
    Inr \<lparr>rows = [\<lparr>Item = ''Cement (bag, 50kg)'', Qty = 10, Unit_Price = 420, Total = 4200\<rparr>],
         extras = [(''Design Fee'', 1000)],
         subtotal = 5200, discount_amt = 520, taxable = 4680,
         gst_amt = 842.4, grand_total = 5522.4\<rparr>"
    by (simp add: quote_eval SAMPLE_RATES_def)
  have rates: "\<forall>v \<in> set (dict_values SAMPLE_RATES). 0 \<le> v"
    by (simp add: SAMPLE_RATES_def dict_values_def)
  have qtys: "\<forall>it \<in> set [\<lparr>name = Some ''Cement (bag, 50kg)'', qty = Some (10 :: num), unit = None\<rparr>].
      \<forall>n. qty it = Some n \<longrightarrow> 0 \<le> n"
    by simp
  have ex: "\<forall>v \<in> set (dict_values [(''Design Fee'', 1000 :: num)]). 0 \<le> v"
    by (simp add: dict_values_def)
  from monetary_fields_sign [OF call rates qtys ex] call show ?thesis
    by simp
qed

text \<open>
  The claim as the specification states it counts the tax among the fields that are
  never negative, and lets the discount be negative only above 100 per cent. A discount
  of 200 per cent on 10 bags of cement gives the tax -756, and a discount of -10 per
  cent gives the discount amount -420.
\<close>

theorem negative_amounts_counterexample:
  "calculate_quote [(''Cement'', 420)]
      [\<lparr>name = Some ''Cement'', qty = Some 10, unit = None\<rparr>] [] 200 =
    Inr \<lparr>rows = [\<lparr>Item = ''Cement'', Qty = 10, Unit_Price = 420, Total = 4200\<rparr>],
         extras = [], subtotal = 4200, discount_amt = 8400, taxable = - 4200,
         gst_amt = - 756, grand_total = - 4956\<rparr> \<and>
   calculate_quote [(''Cement'', 420)]
      [\<lparr>name = Some ''Cement'', qty = Some 10, unit = None\<rparr>] [] (- 10) =
    Inr \<lparr>rows = [\<lparr>Item = ''Cement'', Qty = 10, Unit_Price = 420, Total = 4200\<rparr>],
         extras = [], subtotal = 4200, discount_amt = - 420, taxable = 4620,
         gst_amt = 831.6, grand_total = 5451.6\<rparr>"
  by (simp add: quote_eval)

section \<open>Effects\<close>

text \<open>
  Claim C10. A call leaves its inputs as they were: every object of the store before
  the call is unchanged after it, so the selections list, the extras dict and the
  catalog hold the values they held; and the \<^verbatim>\<open>'extras'\<close> field of the returned quote
  is the extras argument itself, holding the content passed in.
\<close>

theorem calculate_quote_inputs_unchanged:
  assumes "deref h g = Some (Mapping rates)"
    and "deref h selected_items = Some (Selections its)"
    and "deref h ext = Some (Mapping ex)"
  shows "\<exists>h' res. calculate_quote_store h g selected_items ext discount_percent = Some (h', res) \<and>
           (\<forall>a < length h. deref h' a = deref h a) \<and>
           deref h' g = Some (Mapping rates) \<and>
           deref h' selected_items = Some (Selections its) \<and>
           deref h' ext = Some (Mapping ex) \<and>
           (\<forall>q. res = Inr q \<longrightarrow>
              extras q = ext \<and> (\<exists>v. quote_value h' q = Some v \<and> extras v = ex))"
proof -
  from calculate_quote_store_refines [OF assms, of discount_percent]
  obtain h' res where call: "calculate_quote_store h g selected_items ext discount_percent = Some (h', res)"
    and len: "length h' = Suc (length h)"
    and frame: "\<forall>a < length h. h' ! a = h ! a"
    and res: "(case calculate_quote rates its ex discount_percent of
              Inl err \<Rightarrow> res = Inl err
            | Inr q \<Rightarrow>
                (\<exists>qr. res = Inr qr \<and> rows qr = length h \<and> extras qr = ext \<and>
                   quote_value h' qr = Some q))"
    by blast
  have le: "length h \<le> length h'" using len by simp
  have fr: "\<forall>a < length h. deref h' a = deref h a"
    using frame len by (simp add: deref_def)
  have ext: "extras q = ext \<and> (\<exists>v. quote_value h' q = Some v \<and> extras v = ex)"
    if "res = Inr q" for q
  proof (cases "calculate_quote rates its ex discount_percent")
    case (Inl err)
    with res that show ?thesis by simp
  next
    case (Inr v)
    with res that have "extras q = ext" "quote_value h' q = Some v" by auto
    moreover have "extras v = ex" by (rule calculate_quote_extras [OF Inr])
    ultimately show ?thesis by blast
  qed
  from call fr ext deref_frame [OF assms(1) le frame] deref_frame [OF assms(2) le frame]
    deref_frame [OF assms(3) le frame]
  show ?thesis by blast
qed

theorem calculate_quote_inputs_unchanged_witness:
  "calculate_quote_store
     [Mapping SAMPLE_RATES,
      Selections [\<lparr>name = Some ''Cement (bag, 50kg)'', qty = Some 10, unit = None\<rparr>],
      Mapping [(''Design Fee'', 1000)]] 0 1 2 10 =
   Some ([Mapping SAMPLE_RATES,
      Selections [\<lparr>name = Some ''Cement (bag, 50kg)'', qty = Some 10, unit = None\<rparr>],
      Mapping [(''Design Fee'', 1000)],
      Rows [\<lparr>Item = ''Cement (bag, 50kg)'', Qty = 10, Unit_Price = 420, Total = 4200\<rparr>]],
     Inr \<lparr>rows = 3, extras = 2, subtotal = 5200, discount_amt = 520, taxable = 4680,
         gst_amt = 842.4, grand_total = 5522.4\<rparr>)"
proof -
  let ?h = "[Mapping SAMPLE_RATES,
      Selections [\<lparr>name = Some ''Cement (bag, 50kg)'', qty = Some 10, unit = None\<rparr>],
      Mapping [(''Design Fee'', 1000)]]"
  have g: "deref ?h 0 = Some (Mapping SAMPLE_RATES)"
    and s: "deref ?h 1 =
      Some (Selections [\<lparr>name = Some ''Cement (bag, 50kg)'', qty = Some 10, unit = None\<rparr>])"
    and e: "deref ?h 2 = Some (Mapping [(''Design Fee'', 1000)])"
    by (simp_all add: deref_def)
  from calculate_quote_inputs_unchanged [OF g s e, of 10] show ?thesis
    by (simp add: calculate_quote_store_def alloc_def store_loop.simps deref_def
      price_row_def quote_totals_def dict_get_def dict_values_def GST_PERCENT_def Let_def
      SAMPLE_RATES_def)
qed

text \<open>
  Claim C5. The result of a call is determined by the contents of the catalog, the
  selections, the extras and the discount percentage: a second call on the store the
  first one leaves, and a call on any other store that holds the same contents (at
  whatever addresses), all return, and return quotes equal in every field, which is the
  quote of \<open>calculate_quote\<close> on these contents; or all raise the same error.
\<close>

theorem calculate_quote_deterministic:
  assumes "deref h g = Some (Mapping rates)"
    and "deref h selected_items = Some (Selections its)"
    and "deref h ext = Some (Mapping ex)"
    and "deref k g' = Some (Mapping rates)"
    and "deref k selected_items' = Some (Selections its)"
    and "deref k ext' = Some (Mapping ex)"
  shows "\<exists>h1 res1 h2 res2 k1 res3.
           calculate_quote_store h g selected_items ext discount_percent = Some (h1, res1) \<and>
           calculate_quote_store h1 g selected_items ext discount_percent = Some (h2, res2) \<and>
           calculate_quote_store k g' selected_items' ext' discount_percent = Some (k1, res3) \<and>
           (case calculate_quote rates its ex discount_percent of
              Inl err \<Rightarrow> res1 = Inl err \<and> res2 = Inl err \<and> res3 = Inl err
            | Inr v \<Rightarrow>
                (\<exists>q1 q2 q3. res1 = Inr q1 \<and> res2 = Inr q2 \<and> res3 = Inr q3 \<and>
                   quote_value h1 q1 = Some v \<and> quote_value h2 q2 = Some v \<and>
                   quote_value k1 q3 = Some v))"
proof -
  let ?pure = "calculate_quote rates its ex discount_percent"
  from calculate_quote_store_refines [OF assms(1,2,3), of discount_percent]
  obtain h1 res1 where c1: "calculate_quote_store h g selected_items ext discount_percent = Some (h1, res1)"
    and len: "length h1 = Suc (length h)"
    and frame: "\<forall>a < length h. h1 ! a = h ! a"
    and r1: "(case ?pure of Inl err \<Rightarrow> res1 = Inl err
            | Inr q \<Rightarrow> (\<exists>qr. res1 = Inr qr \<and> rows qr = length h \<and> extras qr = ext \<and>
                   quote_value h1 qr = Some q))"
    by blast
  have le: "length h \<le> length h1" using len by simp
  note again = deref_frame [OF assms(1) le frame] deref_frame [OF assms(2) le frame]
    deref_frame [OF assms(3) le frame]
  from calculate_quote_store_refines [OF again, of discount_percent]
  obtain h2 res2 where c2: "calculate_quote_store h1 g selected_items ext discount_percent = Some (h2, res2)"
    and r2: "(case ?pure of Inl err \<Rightarrow> res2 = Inl err
            | Inr q \<Rightarrow> (\<exists>qr. res2 = Inr qr \<and> rows qr = length h1 \<and> extras qr = ext \<and>
                   quote_value h2 qr = Some q))"
    by blast
  from calculate_quote_store_refines [OF assms(4,5,6), of discount_percent]
  obtain k1 res3 where c3: "calculate_quote_store k g' selected_items' ext' discount_percent = Some (k1, res3)"
    and r3: "(case ?pure of Inl err \<Rightarrow> res3 = Inl err
            | Inr q \<Rightarrow> (\<exists>qr. res3 = Inr qr \<and> rows qr = length k \<and> extras qr = ext' \<and>
                   quote_value k1 qr = Some q))"
    by blast
  have "(case ?pure of
              Inl err \<Rightarrow> res1 = Inl err \<and> res2 = Inl err \<and> res3 = Inl err
            | Inr v \<Rightarrow>
                (\<exists>q1 q2 q3. res1 = Inr q1 \<and> res2 = Inr q2 \<and> res3 = Inr q3 \<and>
                   quote_value h1 q1 = Some v \<and> quote_value h2 q2 = Some v \<and>
                   quote_value k1 q3 = Some v))"
    using r1 r2 r3 by (cases ?pure) auto
  with c1 c2 c3 show ?thesis by blast
qed

theorem calculate_quote_deterministic_witness:
  "\<exists>h1 q1 h2 q2 k1 q3.
     calculate_quote_store
       [Mapping SAMPLE_RATES,
        Selections [\<lparr>name = Some ''Cement (bag, 50kg)'', qty = Some 10, unit = None\<rparr>],
        Mapping [(''Design Fee'', 1000)]] 0 1 2 10 = Some (h1, Inr q1) \<and>
     calculate_quote_store h1 0 1 2 10 = Some (h2, Inr q2) \<and>
     calculate_quote_store
       [Rows [], Mapping [(''Design Fee'', 1000)],
        Selections [\<lparr>name = Some ''Cement (bag, 50kg)'', qty = Some 10, unit = None\<rparr>],
        Mapping SAMPLE_RATES] 3 2 1 10 = Some (k1, Inr q3) \<and>
     quote_value h1 q1 =
       Some \<lparr>rows = [\<lparr>Item = ''Cement (bag, 50kg)'', Qty = 10, Unit_Price = 420, Total = 4200\<rparr>],
             extras = [(''Design Fee'', 1000)], subtotal = 5200, discount_amt = 520,
             taxable = 4680, gst_amt = 842.4, grand_total = 5522.4\<rparr> \<and>
     quote_value h2 q2 = quote_value h1 q1 \<and>
     quote_value k1 q3 = quote_value h1 q1"
proof -
  let ?sel = "[\<lparr>name = Some ''Cement (bag, 50kg)'', qty = Some (10 :: num), unit = None\<rparr>]"
  let ?ex = "[(''Design Fee'', 1000 :: num)]"
  let ?h = "[Mapping SAMPLE_RATES, Selections ?sel, Mapping ?ex]"
  let ?k = "[Rows [], Mapping ?ex, Selections ?sel, Mapping SAMPLE_RATES]"
  have h: "deref ?h 0 = Some (Mapping SAMPLE_RATES)" "deref ?h 1 = Some (Selections ?sel)"
    "deref ?h 2 = Some (Mapping ?ex)"
    by (simp_all add: deref_def)
  have k: "deref ?k 3 = Some (Mapping SAMPLE_RATES)" "deref ?k 2 = Some (Selections ?sel)"
    "deref ?k 1 = Some (Mapping ?ex)"
    by (simp_all add: deref_def)
  have pure: "calculate_quote SAMPLE_RATES ?sel ?ex 10 =
       Inr \<lparr>rows = [\<lparr>Item = ''Cement (bag, 50kg)'', Qty = 10, Unit_Price = 420, Total = 4200\<rparr>],
             extras = [(''Design Fee'', 1000)], subtotal = 5200, discount_amt = 520,
             taxable = 4680, gst_amt = 842.4, grand_total = 5522.4\<rparr>"
    by (simp add: quote_eval SAMPLE_RATES_def)
  from calculate_quote_deterministic [OF h k, of 10] show ?thesis
    unfolding pure sum.case by metis
qed

end
